theory Spec2Isabelle
  imports Main "HOL-Library.AList"
begin

section \<open>Values, errors and ordered dictionaries\<close>

text \<open>
  The module \<open>aries_cloudagent/messaging/agent_message.py\<close> defines the base class of
  agent messages (\<open>AgentMessage\<close>) and the hooks of its schema (\<open>AgentMessageSchema\<close>).
  Wire data are JSON-like values; the exceptions the module raises are values of
  \<open>error\<close>, and a function that may raise returns \<open>error + 'a\<close>.
\<close>

datatype jval =
    JNull
  | JBool bool
  | JNum int
  | JStr string
  | JList "jval list"
  | JObj "(string \<times> jval) list"

datatype error =
    BaseModelError string
  | ValidationError string
  | TypeError string
  | KeyError string

text \<open>
  A Python \<open>dict\<close> / \<open>OrderedDict\<close> is an association list in insertion order.
  \<open>d[k] = v\<close> is \<open>AList.update k v d\<close> (in place when the key is there, appended
  otherwise), \<open>k in d\<close> is \<open>k \<in> set (keys d)\<close>, \<open>d.get(k)\<close> is \<open>map_of d k\<close>.
\<close>

type_synonym 'v odict = "(string \<times> 'v) list"

definition keys :: "'v odict \<Rightarrow> string list" where
  "keys d = map fst d"

text \<open>\<open>del d[k]\<close> raises \<open>KeyError\<close> when the key is missing.\<close>

definition del_item :: "string \<Rightarrow> 'v odict \<Rightarrow> error + 'v odict" where
  "del_item k d = (if k \<in> set (keys d) then Inr (AList.delete k d) else Inl (KeyError k))"

text \<open>\<open>d.update(e)\<close>: every item of \<open>e\<close>, in order, is stored into \<open>d\<close>.\<close>

fun dict_update :: "'v odict \<Rightarrow> 'v odict \<Rightarrow> 'v odict" where
  "dict_update d [] = d"
| "dict_update d ((k, v) # e) = dict_update (AList.update k v d) e"

text \<open>Python truthiness of an optional string: \<open>None\<close> and \<open>""\<close> are false.\<close>

fun truthy :: "string option \<Rightarrow> bool" where
  "truthy None = False"
| "truthy (Some s) = (s \<noteq> [])"

section \<open>Decorators\<close>

text \<open>
  Modelled from the spec: the classes \<open>SignatureDecorator\<close>, \<open>ThreadDecorator\<close> and
  \<open>DecoratorSet\<close> live in \<open>messaging/decorators\<close>, outside this module. The spec gives
  their data: a field signature holds the signer key, the payload and the signature
  bytes; a thread decorator holds \<open>thid\<close> and the optional \<open>pthid\<close>; a decorator set
  holds global decorators by name and, per field name, decorators by kind. The module
  reads and writes only the global entry \<open>"thread"\<close> and the per-field entry \<open>"sig"\<close>, so
  each is a typed component of its own, next to the remaining entries.
\<close>

record signature_decorator =
  signer :: string
  sig_data :: string
  signature :: string

text \<open>
  Modelled from the spec: \<open>ThreadDecorator\<close>, with \<open>thid\<close> and the optional \<open>pthid\<close>;
  either may be \<open>None\<close> in the constructor call of \<open>assign_thread_id\<close>.
\<close>

record thread_decorator =
  thid :: "string option"
  pthid :: "string option"

text \<open>
  Modelled from the spec: the decorators of one field, by kind (\<open>DecoratorSet\<close> is
  outside this module): the entry \<open>"sig"\<close> and the remaining entries.
\<close>

record field_decorators =
  fd_sig :: "signature_decorator option"
  fd_rest :: "jval odict"

text \<open>
  Modelled from the spec: \<open>DecoratorSet\<close>, the global decorators by name (the entry
  \<open>"thread"\<close> and the remaining entries) and the per-field decorators by field name.
\<close>

record decorator_set =
  ds_thread :: "thread_decorator option"
  ds_rest :: "jval odict"
  ds_fields :: "field_decorators odict"

text \<open>Modelled from the spec: an empty per-field map and \<open>DecoratorSet()\<close>.\<close>

definition empty_field :: field_decorators where
  "empty_field = \<lparr>fd_sig = None, fd_rest = []\<rparr>"

definition DecoratorSet :: decorator_set where
  "DecoratorSet = \<lparr>ds_thread = None, ds_rest = [], ds_fields = []\<rparr>"

text \<open>
  Modelled from the spec: \<open>DecoratorSet.field(name)\<close> returns the per-field decorator map
  for \<open>name\<close>, creating an empty one when there is none.
\<close>

definition field :: "string \<Rightarrow> decorator_set \<Rightarrow> field_decorators \<times> decorator_set" where
  "field name ds =
     (case map_of (ds_fields ds) name of
        Some fd \<Rightarrow> (fd, ds)
      | None \<Rightarrow> (empty_field, ds\<lparr>ds_fields := ds_fields ds @ [(name, empty_field)]\<rparr>))"

text \<open>The signature stored for a field, without touching the set.\<close>

definition stored_sig :: "decorator_set \<Rightarrow> string \<Rightarrow> signature_decorator option" where
  "stored_sig ds name =
     (case map_of (ds_fields ds) name of None \<Rightarrow> None | Some fd \<Rightarrow> fd_sig fd)"

section \<open>AgentMessage\<close>

text \<open>
  \<open>class Meta\<close> of a message kind: the class name (used in error messages), the handler
  class, the schema class and the message type, each possibly \<open>None\<close>.
\<close>

record message_meta =
  class_name :: string
  handler_class :: "string option"
  schema_class :: "string option"
  message_type :: "string option"

text \<open>The \<open>Meta\<close> of \<open>AgentMessage\<close> itself (lines 38 to 43).\<close>

definition AgentMessage_Meta :: message_meta where
  "AgentMessage_Meta =
     \<lparr>class_name = ''AgentMessage'', handler_class = None, schema_class = None,
      message_type = None\<rparr>"

text \<open>
  An instance: its kind's \<open>Meta\<close>, \<open>_message_id\<close>, \<open>_message_new_id\<close>,
  \<open>_message_decorators\<close>, and the attributes a concrete kind adds (its business fields).
\<close>

record agent_message =
  meta :: message_meta
  message_id :: string
  message_new_id :: bool
  message_decorators :: decorator_set
  attrs :: "jval odict"

text \<open>
  \<open>AgentMessage.__init__\<close>. \<open>base_init\<close> is \<open>BaseModel.__init__\<close> (outside this module):
  the error it raises for a kind, if any. \<open>ds_bool\<close> is the truth value of a decorator set
  in \<open>_decorators or DecoratorSet()\<close>. \<open>fresh\<close> is the value of \<open>str(uuid.uuid4())\<close>.
  The identifier and the decorators are assigned before the message type is checked.
\<close>

definition no_message_type :: "message_meta \<Rightarrow> error" where
  "no_message_type m =
     TypeError (''Can't instantiate abstract class '' @ class_name m @ '' with no message_type'')"

definition init ::
  "(message_meta \<Rightarrow> error option) \<Rightarrow> (decorator_set \<Rightarrow> bool) \<Rightarrow> string \<Rightarrow>
   message_meta \<Rightarrow> string option \<Rightarrow> decorator_set option \<Rightarrow> jval odict \<Rightarrow>
   error + agent_message" where
  "init base_init ds_bool fresh m id_arg decorators_arg kind_attrs =
     (case base_init m of
        Some e \<Rightarrow> Inl e
      | None \<Rightarrow>
          (let self = \<lparr>meta = m,
                       message_id =
                         (case id_arg of
                            None \<Rightarrow> fresh
                          | Some s \<Rightarrow> if s = [] then fresh else s),
                       message_new_id = \<not> truthy id_arg,
                       message_decorators =
                         (case decorators_arg of
                            None \<Rightarrow> DecoratorSet
                          | Some d \<Rightarrow> if ds_bool d then d else DecoratorSet),
                       attrs = kind_attrs\<rparr>
           in if \<not> truthy (message_type m) then Inl (no_message_type m) else Inr self))"

text \<open>The properties \<open>_type\<close>, \<open>_id\<close> (getter and setter) and \<open>_decorators\<close>.\<close>

definition get_type :: "agent_message \<Rightarrow> string option" where
  "get_type self = message_type (meta self)"

definition get_id :: "agent_message \<Rightarrow> string" where
  "get_id self = message_id self"

definition set_id :: "string \<Rightarrow> agent_message \<Rightarrow> agent_message" where
  "set_id val self = self\<lparr>message_id := val\<rparr>"

definition get_decorators :: "agent_message \<Rightarrow> decorator_set" where
  "get_decorators self = message_decorators self"

definition set_decorators :: "decorator_set \<Rightarrow> agent_message \<Rightarrow> agent_message" where
  "set_decorators val self = self\<lparr>message_decorators := val\<rparr>"

text \<open>
  \<open>get_signature\<close>: \<open>self._decorators.field(field_name).get("sig")\<close>. The call of
  \<open>field\<close> may add an empty entry to the decorator set, so the message is returned too.
\<close>

definition get_signature ::
  "string \<Rightarrow> agent_message \<Rightarrow> signature_decorator option \<times> agent_message" where
  "get_signature field_name self =
     (let (fd, ds) = field field_name (message_decorators self)
      in (fd_sig fd, self\<lparr>message_decorators := ds\<rparr>))"

text \<open>\<open>set_signature\<close>: \<open>self._decorators.field(field_name)["sig"] = signature\<close>.\<close>

definition set_signature ::
  "string \<Rightarrow> signature_decorator \<Rightarrow> agent_message \<Rightarrow> agent_message" where
  "set_signature field_name sg self =
     (let (fd, ds) = field field_name (message_decorators self)
      in self\<lparr>message_decorators :=
                ds\<lparr>ds_fields := AList.update field_name (fd\<lparr>fd_sig := Some sg\<rparr>) (ds_fields ds)\<rparr>\<rparr>)"

text \<open>
  \<open>sign_field\<close>. \<open>create\<close> is \<open>SignatureDecorator.create(value, signer_verkey, wallet,
  timestamp)\<close> with the wallet fixed; \<open>getattr(self, field_name, None)\<close> reads the
  attributes of the concrete kind.
\<close>

definition sign_field ::
  "(jval \<Rightarrow> string \<Rightarrow> nat option \<Rightarrow> signature_decorator) \<Rightarrow> string \<Rightarrow> string \<Rightarrow>
   nat option \<Rightarrow> agent_message \<Rightarrow> (error + signature_decorator) \<times> agent_message" where
  "sign_field create field_name signer_verkey timestamp self =
     (case map_of (attrs self) field_name of
        None \<Rightarrow>
          (Inl (BaseModelError (class_name (meta self) @ '' field has no value for signature: ''
                  @ field_name)), self)
      | Some JNull \<Rightarrow>
          (Inl (BaseModelError (class_name (meta self) @ '' field has no value for signature: ''
                  @ field_name)), self)
      | Some v \<Rightarrow>
          (let sg = create v signer_verkey timestamp
           in (Inr sg, set_signature field_name sg self)))"

text \<open>
  \<open>verify_signed_field\<close>. \<open>verify\<close> is \<open>sig.verify(wallet)\<close> with the wallet fixed: the
  boolean the awaited call returns.
\<close>

definition verify_signed_field ::
  "(signature_decorator \<Rightarrow> bool) \<Rightarrow> string \<Rightarrow> string option \<Rightarrow> agent_message \<Rightarrow>
   (error + string) \<times> agent_message" where
  "verify_signed_field verify field_name signer_verkey self =
     (let (sg_opt, self') = get_signature field_name self
      in case sg_opt of
           None \<Rightarrow> (Inl (BaseModelError (''Missing field signature: '' @ field_name)), self')
         | Some sg \<Rightarrow>
             if \<not> verify sg then
               (Inl (BaseModelError (''Field signature verification failed: '' @ field_name)),
                self')
             else if signer_verkey \<noteq> None \<and> Some (signer sg) \<noteq> signer_verkey then
               (Inl (BaseModelError
                       (''Signer verkey of signature does not match: '' @ field_name)), self')
             else (Inr (signer sg), self'))"

text \<open>
  \<open>verify_signatures\<close>: the loop over \<open>self._decorators.fields.values()\<close>. Next to the
  result, the loop returns the signatures it passed to \<open>verify\<close>, in order: the calls made
  to the wallet.
\<close>

fun verify_signatures_loop ::
  "(signature_decorator \<Rightarrow> bool) \<Rightarrow> field_decorators list \<Rightarrow>
   bool \<times> signature_decorator list" where
  "verify_signatures_loop verify [] = (True, [])"
| "verify_signatures_loop verify (fd # rest) =
     (case fd_sig fd of
        None \<Rightarrow> verify_signatures_loop verify rest
      | Some sg \<Rightarrow>
          if \<not> verify sg then (False, [sg])
          else (let (r, calls) = verify_signatures_loop verify rest in (r, sg # calls)))"

definition verify_signatures ::
  "(signature_decorator \<Rightarrow> bool) \<Rightarrow> agent_message \<Rightarrow> bool" where
  "verify_signatures verify self =
     fst (verify_signatures_loop verify (map snd (ds_fields (message_decorators self))))"

definition verify_signatures_calls ::
  "(signature_decorator \<Rightarrow> bool) \<Rightarrow> agent_message \<Rightarrow> signature_decorator list" where
  "verify_signatures_calls verify self =
     snd (verify_signatures_loop verify (map snd (ds_fields (message_decorators self))))"

text \<open>The stored signatures of a message, in the order of the per-field entries.\<close>

definition stored_sigs :: "agent_message \<Rightarrow> signature_decorator list" where
  "stored_sigs self =
     List.map_filter fd_sig (map snd (ds_fields (message_decorators self)))"

text \<open>The thread decorator: getter, setter, \<open>_thread_id\<close>, and the two assignments.\<close>

definition get_thread :: "agent_message \<Rightarrow> thread_decorator option" where
  "get_thread self = ds_thread (message_decorators self)"

definition set_thread :: "thread_decorator \<Rightarrow> agent_message \<Rightarrow> agent_message" where
  "set_thread val self =
     self\<lparr>message_decorators := (message_decorators self)\<lparr>ds_thread := Some val\<rparr>\<rparr>"

definition thread_id :: "agent_message \<Rightarrow> string" where
  "thread_id self =
     (case get_thread self of
        None \<Rightarrow> message_id self
      | Some t \<Rightarrow>
          (case thid t of
             None \<Rightarrow> message_id self
           | Some s \<Rightarrow> if s = [] then message_id self else s))"

text \<open>
  \<open>ThreadDecorator(thid=thid, pthid=pthid)\<close>: \<open>assign_thread_from\<close> may pass a \<open>thid\<close>
  that is a string (the previous message's id) or whatever the previous thread held.
\<close>

definition assign_thread_id ::
  "string option \<Rightarrow> string option \<Rightarrow> agent_message \<Rightarrow> agent_message" where
  "assign_thread_id thid_arg pthid_arg self =
     set_thread \<lparr>thid = thid_arg, pthid = pthid_arg\<rparr> self"

text \<open>
  \<open>assign_thread_from\<close>: \<open>thread and thread.thid or msg._message_id\<close> is the thread's
  \<open>thid\<close> when the thread is there and its \<open>thid\<close> is truthy, else the message id;
  \<open>thread and thread.pthid\<close> is \<open>None\<close> without a thread, else the thread's \<open>pthid\<close>.
\<close>

definition assign_thread_from :: "agent_message option \<Rightarrow> agent_message \<Rightarrow> agent_message" where
  "assign_thread_from msg self =
     (case msg of
        None \<Rightarrow> self
      | Some m \<Rightarrow>
          (let thread = get_thread m;
               thid_v = (case thread of
                           None \<Rightarrow> Some (message_id m)
                         | Some t \<Rightarrow> if truthy (thid t) then thid t else Some (message_id m));
               pthid_v = (case thread of None \<Rightarrow> None | Some t \<Rightarrow> pthid t)
           in assign_thread_id thid_v pthid_v self))"

text \<open>
  The operations a caller can run on a message after construction, and the message each
  leaves behind. \<open>GetSignature\<close> and \<open>VerifySignedField\<close> are listed because their call of
  \<open>field\<close> may add an empty per-field entry; \<open>VerifySignatures\<close> only reads.
\<close>

datatype operation =
    SetId string
  | SetDecorators decorator_set
  | GetSignature string
  | SetSignature string signature_decorator
  | SignField string string "nat option"
  | VerifySignedField string "string option"
  | VerifySignatures
  | SetThread thread_decorator
  | AssignThreadFrom "agent_message option"
  | AssignThreadId "string option" "string option"

fun run_operation ::
  "(jval \<Rightarrow> string \<Rightarrow> nat option \<Rightarrow> signature_decorator) \<Rightarrow> (signature_decorator \<Rightarrow> bool) \<Rightarrow>
   operation \<Rightarrow> agent_message \<Rightarrow> agent_message" where
  "run_operation create verify (SetId val) self = set_id val self"
| "run_operation create verify (SetDecorators val) self = set_decorators val self"
| "run_operation create verify (GetSignature f) self = snd (get_signature f self)"
| "run_operation create verify (SetSignature f sg) self = set_signature f sg self"
| "run_operation create verify (SignField f k ts) self = snd (sign_field create f k ts self)"
| "run_operation create verify (VerifySignedField f k) self =
     snd (verify_signed_field verify f k self)"
| "run_operation create verify VerifySignatures self = self"
| "run_operation create verify (SetThread val) self = set_thread val self"
| "run_operation create verify (AssignThreadFrom msg) self = assign_thread_from msg self"
| "run_operation create verify (AssignThreadId t p) self = assign_thread_id t p self"

fun is_SetId :: "operation \<Rightarrow> bool" where
  "is_SetId (SetId val) = True"
| "is_SetId other = False"

fun run_operations ::
  "(jval \<Rightarrow> string \<Rightarrow> nat option \<Rightarrow> signature_decorator) \<Rightarrow> (signature_decorator \<Rightarrow> bool) \<Rightarrow>
   operation list \<Rightarrow> agent_message \<Rightarrow> agent_message" where
  "run_operations create verify [] self = self"
| "run_operations create verify (op # ops) self =
     run_operations create verify ops (run_operation create verify op self)"

section \<open>AgentMessageSchema\<close>

text \<open>
  \<open>class Meta\<close> of a schema, and the state of a schema instance: \<open>_decorators\<close>,
  \<open>_decorators_dict\<close> (initially \<open>None\<close>) and \<open>_signatures\<close>.
  \<open>resolve_meta_property(self, "signed_fields") or ()\<close> is the declared list, empty when
  none is declared.
\<close>

record schema_meta =
  schema_name :: string
  model_class :: "string option"
  signed_fields :: "string list option"

record agent_message_schema =
  smeta :: schema_meta
  decorators :: decorator_set
  decorators_dict :: "jval odict option"
  signatures :: "jval odict"

definition schema_init :: "schema_meta \<Rightarrow> error + agent_message_schema" where
  "schema_init sm =
     (if \<not> truthy (model_class sm) then
        Inl (TypeError (''Can't instantiate abstract class '' @ schema_name sm
                          @ '' with no model_class''))
      else Inr \<lparr>smeta = sm, decorators = DecoratorSet, decorators_dict = None,
                signatures = []\<rparr>)"

definition expect_fields :: "agent_message_schema \<Rightarrow> string list" where
  "expect_fields sch = (case signed_fields (smeta sch) of None \<Rightarrow> [] | Some fs \<Rightarrow> fs)"

text \<open>The names of the per-field entries that hold a \<open>"sig"\<close>, in order.\<close>

definition signed_names :: "decorator_set \<Rightarrow> string list" where
  "signed_names ds = map fst (filter (\<lambda>entry. fd_sig (snd entry) \<noteq> None) (ds_fields ds))"

subsection \<open>Loading: the \<open>pre_load\<close> and \<open>post_load\<close> hooks\<close>

text \<open>The validation errors of the \<open>pre_load\<close> hook, with their messages.\<close>

definition unexpected_signature :: "string \<Rightarrow> error" where
  "unexpected_signature field_name =
     ValidationError (''Encountered unexpected field signature: '' @ field_name)"

definition signature_and_value :: "string \<Rightarrow> error" where
  "signature_and_value field_name =
     ValidationError (''Message defines both field signature and value: '' @ field_name)"

definition expected_signature :: "string \<Rightarrow> error" where
  "expected_signature field_name =
     ValidationError (''Expected field signature: '' @ field_name)"

text \<open>
  The first loop of \<open>extract_decorators\<close>, over \<open>self._decorators.fields.items()\<close>, with
  \<open>processed\<close> and \<open>found_signatures\<close> threaded through. \<open>decode\<close> is
  \<open>SignatureDecorator.decode\<close>, which returns the value and the timestamp; it is taken
  as returning for every stored signature.
\<close>

fun check_field_signatures ::
  "(signature_decorator \<Rightarrow> jval \<times> nat) \<Rightarrow> string list \<Rightarrow> field_decorators odict \<Rightarrow>
   jval odict \<Rightarrow> signature_decorator odict \<Rightarrow>
   error + (jval odict \<times> signature_decorator odict)" where
  "check_field_signatures decode expect [] processed found = Inr (processed, found)"
| "check_field_signatures decode expect ((field_name, fd) # rest) processed found =
     (case fd_sig fd of
        None \<Rightarrow> check_field_signatures decode expect rest processed found
      | Some sg \<Rightarrow>
          if field_name \<notin> set expect then
            Inl (unexpected_signature field_name)
          else if field_name \<in> set (keys processed) then
            Inl (signature_and_value field_name)
          else check_field_signatures decode expect rest
                 (AList.update field_name (fst (decode sg)) processed)
                 (AList.update field_name sg found))"

text \<open>The second loop, over \<open>expect_fields\<close>.\<close>

fun check_expected :: "string list \<Rightarrow> signature_decorator odict \<Rightarrow> error option" where
  "check_expected [] found = None"
| "check_expected (field_name # rest) found =
     (if field_name \<notin> set (keys found) then
        Some (expected_signature field_name)
      else check_expected rest found)"

text \<open>The two loops in sequence: lines 345 to 362, after the decorators are extracted.\<close>

definition check_signed_fields ::
  "(signature_decorator \<Rightarrow> jval \<times> nat) \<Rightarrow> string list \<Rightarrow> field_decorators odict \<Rightarrow>
   jval odict \<Rightarrow> error + jval odict" where
  "check_signed_fields decode expect fs processed =
     (case check_field_signatures decode expect fs processed [] of
        Inl e \<Rightarrow> Inl e
      | Inr (processed', found) \<Rightarrow>
          (case check_expected expect found of
             Some e \<Rightarrow> Inl e
           | None \<Rightarrow> Inr processed'))"

text \<open>
  \<open>extract_decorators\<close>. \<open>ds_extract\<close> is \<open>DecoratorSet.extract_decorators\<close>: from the
  schema's decorator set and the incoming data it gives the remaining plain items and the
  populated set, or raises. The schema is returned with its \<open>_decorators\<close> as populated.
\<close>

definition extract_decorators ::
  "(decorator_set \<Rightarrow> jval odict \<Rightarrow> error + (jval odict \<times> decorator_set)) \<Rightarrow>
   (signature_decorator \<Rightarrow> jval \<times> nat) \<Rightarrow> agent_message_schema \<Rightarrow> jval odict \<Rightarrow>
   agent_message_schema \<times> (error + jval odict)" where
  "extract_decorators ds_extract decode sch data =
     (case ds_extract (decorators sch) data of
        Inl e \<Rightarrow> (sch, Inl e)
      | Inr (processed, ds) \<Rightarrow>
          (sch\<lparr>decorators := ds\<rparr>,
           check_signed_fields decode (expect_fields sch) (ds_fields ds) processed))"

definition populate_decorators :: "agent_message_schema \<Rightarrow> agent_message \<Rightarrow> agent_message" where
  "populate_decorators sch obj = set_decorators (decorators sch) obj"

text \<open>
  Loading a message: the \<open>pre_load\<close> hook, the field schema, the construction of the model
  and the \<open>post_load\<close> hook. \<open>load_fields\<close> is the field schema of the concrete kind (the
  \<open>marshmallow\<close> fields): from the plain items it gives the \<open>_id\<close> argument and the
  attributes of the kind, or raises. The model is built by \<open>init\<close> for the kind \<open>m\<close>.
\<close>

definition load ::
  "(decorator_set \<Rightarrow> jval odict \<Rightarrow> error + (jval odict \<times> decorator_set)) \<Rightarrow>
   (signature_decorator \<Rightarrow> jval \<times> nat) \<Rightarrow>
   (jval odict \<Rightarrow> error + (string option \<times> jval odict)) \<Rightarrow>
   (message_meta \<Rightarrow> error option) \<Rightarrow> (decorator_set \<Rightarrow> bool) \<Rightarrow> string \<Rightarrow> message_meta \<Rightarrow>
   agent_message_schema \<Rightarrow> jval odict \<Rightarrow> agent_message_schema \<times> (error + agent_message)" where
  "load ds_extract decode load_fields base_init ds_bool fresh m sch data =
     (case extract_decorators ds_extract decode sch data of
        (sch', Inl e) \<Rightarrow> (sch', Inl e)
      | (sch', Inr processed) \<Rightarrow>
          (case load_fields processed of
             Inl e \<Rightarrow> (sch', Inl e)
           | Inr (id_arg, kind_attrs) \<Rightarrow>
               (case init base_init ds_bool fresh m id_arg None kind_attrs of
                  Inl e \<Rightarrow> (sch', Inl e)
                | Inr obj \<Rightarrow> (sch', Inr (populate_decorators sch' obj)))))"

subsection \<open>Dumping: the \<open>pre_dump\<close> and \<open>post_dump\<close> hooks\<close>

text \<open>The error of the \<open>pre_dump\<close> hook, with its message.\<close>

definition missing_signature :: "string \<Rightarrow> error" where
  "missing_signature field_name =
     BaseModelError (''Missing signature for field: '' @ field_name)"

text \<open>
  The loop of \<open>check_dump_decorators\<close> over the per-field entries of the copy: every
  \<open>"sig"\<close> is serialized into \<open>signatures\<close> and deleted from its entry.
  \<open>serialize\<close> is \<open>SignatureDecorator.serialize\<close>.
\<close>

fun move_signatures ::
  "(signature_decorator \<Rightarrow> jval) \<Rightarrow> field_decorators odict \<Rightarrow> jval odict \<Rightarrow>
   field_decorators odict \<times> jval odict" where
  "move_signatures serialize [] sigs = ([], sigs)"
| "move_signatures serialize ((name, fd) # rest) sigs =
     (case fd_sig fd of
        None \<Rightarrow>
          (let (rest', sigs') = move_signatures serialize rest sigs
           in ((name, fd) # rest', sigs'))
      | Some sg \<Rightarrow>
          (let (rest', sigs') = move_signatures serialize rest (AList.update name (serialize sg) sigs)
           in ((name, fd\<lparr>fd_sig := None\<rparr>) # rest', sigs')))"

fun check_signed :: "string list \<Rightarrow> jval odict \<Rightarrow> error option" where
  "check_signed [] sigs = None"
| "check_signed (field_name # rest) sigs =
     (if field_name \<notin> set (keys sigs) then
        Some (missing_signature field_name)
      else check_signed rest sigs)"

text \<open>
  \<open>check_dump_decorators\<close>. \<open>to_dict\<close> is \<open>DecoratorSet.to_dict\<close>. The copy of the
  message's decorators is a value, so the message keeps its signatures. The schema's
  \<open>_decorators_dict\<close> and \<open>_signatures\<close> are assigned before the check, so the schema is
  returned updated also when the check raises. \<open>serialize\<close> and \<open>to_dict\<close> are taken as
  returning: an error of their own, for a decorator that does not validate, is not a
  branch of this hook.
\<close>

definition check_dump_decorators ::
  "(decorator_set \<Rightarrow> jval odict) \<Rightarrow> (signature_decorator \<Rightarrow> jval) \<Rightarrow>
   agent_message_schema \<Rightarrow> agent_message \<Rightarrow> agent_message_schema \<times> (error + agent_message)" where
  "check_dump_decorators to_dict serialize sch obj =
     (let decorators_copy = get_decorators obj;
          (fields', sigs) = move_signatures serialize (ds_fields decorators_copy) [];
          sch' = sch\<lparr>decorators_dict := Some (to_dict (decorators_copy\<lparr>ds_fields := fields'\<rparr>)),
                     signatures := sigs\<rparr>
      in case check_signed (expect_fields sch') (signatures sch') of
           Some e \<Rightarrow> (sch', Inl e)
         | None \<Rightarrow> (sch', Inr obj))"

text \<open>
  \<open>dump_decorators\<close>: the loop over \<open>("@type", "@id")\<close> pops each key that is in \<open>data\<close>
  into \<open>result\<close>; then the decorators and the remaining data are written with \<open>update\<close>.
  \<open>update(None)\<close> raises \<open>TypeError\<close>.
\<close>

fun pop_keys :: "string list \<Rightarrow> jval odict \<Rightarrow> jval odict \<Rightarrow> jval odict \<times> jval odict" where
  "pop_keys [] result data = (result, data)"
| "pop_keys (key # ks) result data =
     (case map_of data key of
        Some v \<Rightarrow> pop_keys ks (AList.update key v result) (AList.delete key data)
      | None \<Rightarrow> pop_keys ks result data)"

definition dump_decorators :: "agent_message_schema \<Rightarrow> jval odict \<Rightarrow> error + jval odict" where
  "dump_decorators sch data =
     (let (result, data') = pop_keys [''@type'', ''@id''] [] data
      in case decorators_dict sch of
           None \<Rightarrow> Inl (TypeError (CHR 0x27 # ''NoneType'' @ CHR 0x27 # '' object is not iterable''))
         | Some dd \<Rightarrow> Inr (dict_update (dict_update result dd) data'))"

text \<open>
  The plain items of a dump: what the field schema serialized, with \<open>@type\<close> and \<open>@id\<close>
  moved to the front as \<open>dump_decorators\<close> does.
\<close>

definition plain_items :: "jval odict \<Rightarrow> jval odict" where
  "plain_items data =
     fst (pop_keys [''@type'', ''@id''] [] data) @ snd (pop_keys [''@type'', ''@id''] [] data)"

text \<open>
  \<open>replace_signatures\<close>: for every item of \<open>self._signatures\<close>, \<open>del data[field_name]\<close>
  and then \<open>data["<field_name>~sig"] = sig\<close>.
\<close>

fun replace_signatures_loop :: "jval odict \<Rightarrow> jval odict \<Rightarrow> error + jval odict" where
  "replace_signatures_loop [] data = Inr data"
| "replace_signatures_loop ((field_name, sg) # rest) data =
     (case del_item field_name data of
        Inl e \<Rightarrow> Inl e
      | Inr data' \<Rightarrow>
          replace_signatures_loop rest (AList.update (field_name @ ''~sig'') sg data'))"

definition replace_signatures :: "agent_message_schema \<Rightarrow> jval odict \<Rightarrow> error + jval odict" where
  "replace_signatures sch data = replace_signatures_loop (signatures sch) data"

text \<open>
  Dumping a message: the \<open>pre_dump\<close> hook, the field schema, then the two \<open>post_dump\<close>
  hooks, \<open>dump_decorators\<close> before \<open>replace_signatures\<close>, each working on the result of
  the one before. \<open>dump_fields\<close> is the field schema of the concrete kind: the items it
  serializes from the message (with \<open>@type\<close> and \<open>@id\<close> for \<open>_type\<close> and \<open>_id\<close>), or the
  error it raises.
\<close>

definition dump ::
  "(decorator_set \<Rightarrow> jval odict) \<Rightarrow> (signature_decorator \<Rightarrow> jval) \<Rightarrow>
   (agent_message \<Rightarrow> error + jval odict) \<Rightarrow>
   agent_message_schema \<Rightarrow> agent_message \<Rightarrow> agent_message_schema \<times> (error + jval odict)" where
  "dump to_dict serialize dump_fields sch obj =
     (case check_dump_decorators to_dict serialize sch obj of
        (sch', Inl e) \<Rightarrow> (sch', Inl e)
      | (sch', Inr obj') \<Rightarrow>
          (case dump_fields obj' of
             Inl e \<Rightarrow> (sch', Inl e)
           | Inr data \<Rightarrow>
               (case dump_decorators sch' data of
                  Inl e \<Rightarrow> (sch', Inl e)
                | Inr data' \<Rightarrow> (sch', replace_signatures sch' data'))))"

section \<open>Stored signatures as a set\<close>

text \<open>
  The pairs of a field name and the signature its per-field entry holds. For a decorator
  set whose field names are distinct (a dictionary), these are the pairs that
  \<open>stored_sig\<close> finds.
\<close>

definition sig_entries :: "field_decorators odict \<Rightarrow> (string \<times> signature_decorator) set" where
  "sig_entries fs = {(n, sg). \<exists>fd. (n, fd) \<in> set fs \<and> fd_sig fd = Some sg}"

text \<open>A decorator set none of whose per-field entries holds a signature.\<close>

definition unsigned :: "decorator_set \<Rightarrow> bool" where
  "unsigned ds \<longleftrightarrow> (\<forall>entry \<in> set (ds_fields ds). fd_sig (snd entry) = None)"


section \<open>The decorator set's wire form\<close>

text \<open>
  Modelled from the spec: \<open>SignatureDecorator.serialize\<close> and \<open>deserialize\<close> are outside
  this module; the spec has them encode the three fields of a signature as one value. A
  thread decorator is encoded likewise, an absent \<open>thid\<close> or \<open>pthid\<close> as null.
\<close>

definition sig_serialize :: "signature_decorator \<Rightarrow> jval" where
  "sig_serialize sg =
     JObj [(''signer'', JStr (signer sg)), (''sig_data'', JStr (sig_data sg)),
           (''signature'', JStr (signature sg))]"

text \<open>
  Modelled from the spec: \<open>SignatureDecorator.deserialize\<close>, the inverse of the wire
  encoding; any other value is not a signature.
\<close>

fun sig_deserialize :: "jval \<Rightarrow> signature_decorator option" where
  "sig_deserialize (JObj [(k1, JStr a), (k2, JStr b), (k3, JStr c)]) =
     (if k1 = ''signer'' \<and> k2 = ''sig_data'' \<and> k3 = ''signature''
      then Some \<lparr>signer = a, sig_data = b, signature = c\<rparr> else None)"
| "sig_deserialize other = None"

text \<open>
  Modelled from the spec: the wire encoding of a thread decorator (\<open>ThreadDecorator\<close> is
  outside this module) and its inverse, with an optional string as a string or null.
\<close>

fun opt_str :: "string option \<Rightarrow> jval" where
  "opt_str None = JNull"
| "opt_str (Some s) = JStr s"

fun str_opt :: "jval \<Rightarrow> string option option" where
  "str_opt JNull = Some None"
| "str_opt (JStr s) = Some (Some s)"
| "str_opt other = None"

definition thread_serialize :: "thread_decorator \<Rightarrow> jval" where
  "thread_serialize t = JObj [(''thid'', opt_str (thid t)), (''pthid'', opt_str (pthid t))]"

fun thread_deserialize :: "jval \<Rightarrow> thread_decorator option" where
  "thread_deserialize (JObj [(k1, a), (k2, b)]) =
     (case (str_opt a, str_opt b) of
        (Some x, Some y) \<Rightarrow>
          if k1 = ''thid'' \<and> k2 = ''pthid'' then Some \<lparr>thid = x, pthid = y\<rparr> else None
      | other \<Rightarrow> None)"
| "thread_deserialize other = None"

text \<open>
  Modelled from the spec: the wire items of one per-field entry, \<open><field>~<kind>\<close> for
  each of its decorators (part of \<open>DecoratorSet.to_dict\<close>, outside this module).
\<close>

definition field_to_dict :: "string \<times> field_decorators \<Rightarrow> jval odict" where
  "field_to_dict entry =
     (case entry of (name, fd) \<Rightarrow>
        (case fd_sig fd of None \<Rightarrow> [] | Some sg \<Rightarrow> [(name @ ''~sig'', sig_serialize sg)])
        @ map (\<lambda>(kind, v). (name @ ''~'' @ kind, v)) (fd_rest fd))"

text \<open>
  Modelled from the spec: \<open>DecoratorSet.to_dict\<close> is outside this module. It rebuilds the
  decorator wire keys, the global decorators first (\<open>~<name>\<close>), then the per-field ones.
\<close>

definition ds_to_dict :: "decorator_set \<Rightarrow> jval odict" where
  "ds_to_dict ds =
     (case ds_thread ds of None \<Rightarrow> [] | Some t \<Rightarrow> [(''~thread'', thread_serialize t)])
     @ map (\<lambda>(name, v). (''~'' @ name, v)) (ds_rest ds)
     @ concat (map field_to_dict (ds_fields ds))"

text \<open>
  Modelled from the spec: the reserved marker of decorator keys. A wire key is split at
  its first marker \<open>~\<close>: the part before it is the field name (empty for a global
  decorator), the part after it the decorator's name or kind.
\<close>

fun split_marker :: "string \<Rightarrow> (string \<times> string) option" where
  "split_marker [] = None"
| "split_marker (c # cs) =
     (if c = CHR ''~'' then Some ([], cs)
      else (case split_marker cs of None \<Rightarrow> None | Some (a, b) \<Rightarrow> Some (c # a, b)))"

text \<open>A key without the marker is a plain key; a key with it is a decorator key.\<close>

definition plain_key :: "string \<Rightarrow> bool" where
  "plain_key k \<longleftrightarrow> CHR ''~'' \<notin> set k"

definition decorator_key :: "string \<Rightarrow> bool" where
  "decorator_key k \<longleftrightarrow> CHR ''~'' \<in> set k"

text \<open>
  Modelled from the spec: storing one decorator, a step of
  \<open>DecoratorSet.extract_decorators\<close> (outside this module). A key that starts with the
  marker is a global decorator, a key with a field name before the marker is a per-field
  decorator. A decorator key with nothing after the marker cannot be parsed, and a
  \<open>thread\<close> or \<open>sig\<close> value that does not deserialize is refused: both are validation
  faults.
\<close>

definition store_decorator ::
  "string \<Rightarrow> string \<Rightarrow> jval \<Rightarrow> decorator_set \<Rightarrow> error + decorator_set" where
  "store_decorator fname kind v ds =
     (if kind = [] then Inl (ValidationError (''Invalid decorator key: '' @ fname @ ''~''))
      else if fname = [] then
        (if kind = ''thread'' then
           (case thread_deserialize v of
              None \<Rightarrow> Inl (ValidationError ''Invalid decorator value: ~thread'')
            | Some t \<Rightarrow> Inr (ds\<lparr>ds_thread := Some t\<rparr>))
         else Inr (ds\<lparr>ds_rest := AList.update kind v (ds_rest ds)\<rparr>))
      else
        (let (fd, ds') = field fname ds
         in if kind = ''sig'' then
              (case sig_deserialize v of
                 None \<Rightarrow> Inl (ValidationError (''Invalid decorator value: '' @ fname @ ''~sig''))
               | Some sg \<Rightarrow>
                   Inr (ds'\<lparr>ds_fields :=
                              AList.update fname (fd\<lparr>fd_sig := Some sg\<rparr>) (ds_fields ds')\<rparr>))
            else
              Inr (ds'\<lparr>ds_fields :=
                         AList.update fname (fd\<lparr>fd_rest := AList.update kind v (fd_rest fd)\<rparr>)
                           (ds_fields ds')\<rparr>)))"

text \<open>
  Modelled from the spec: the scan of the wire items by
  \<open>DecoratorSet.extract_decorators\<close>. An item whose key has the marker is stored as a
  decorator, every other item passes into the remaining plain items.
\<close>

fun ds_extract_loop ::
  "jval odict \<Rightarrow> jval odict \<Rightarrow> decorator_set \<Rightarrow> error + (jval odict \<times> decorator_set)" where
  "ds_extract_loop [] remain ds = Inr (remain, ds)"
| "ds_extract_loop ((key, v) # rest) remain ds =
     (case split_marker key of
        None \<Rightarrow> ds_extract_loop rest (AList.update key v remain) ds
      | Some (fname, kind) \<Rightarrow>
          (case store_decorator fname kind v ds of
             Inl e \<Rightarrow> Inl e
           | Inr ds' \<Rightarrow> ds_extract_loop rest remain ds'))"

text \<open>
  Modelled from the spec: \<open>DecoratorSet.extract_decorators\<close> is outside this module. It
  returns the remaining plain items and the populated set.
\<close>

definition ds_extract_decorators ::
  "decorator_set \<Rightarrow> jval odict \<Rightarrow> error + (jval odict \<times> decorator_set)" where
  "ds_extract_decorators ds data = ds_extract_loop data [] ds"

text \<open>
  A wire item that the extraction stores as a decorator other than a field signature:
  its key has the marker and a name after it, a \<open>~thread\<close> value deserializes, and a
  per-field kind is not \<open>sig\<close>.
\<close>

definition decorator_item :: "string \<times> jval \<Rightarrow> bool" where
  "decorator_item item =
     (case split_marker (fst item) of
        None \<Rightarrow> False
      | Some (fname, kind) \<Rightarrow>
          kind \<noteq> []
          \<and> (if fname = [] then kind = ''thread'' \<longrightarrow> thread_deserialize (snd item) \<noteq> None
             else kind \<noteq> ''sig''))"

section \<open>Sample collaborators and messages\<close>

text \<open>
  Concrete values at which the theorems below are instantiated: a base-class constructor,
  a truth value for decorator sets, a wallet that accepts the signatures \<open>sample_create\<close>
  makes, two message kinds and a few messages.
\<close>

text \<open>
  Modelled from the spec: \<open>BaseModel.__init__\<close> is outside this module; the spec names a
  missing schema binding as the other configuration fault of a kind.
\<close>

definition sample_base_init :: "message_meta \<Rightarrow> error option" where
  "sample_base_init m =
     (if truthy (schema_class m) then None
      else Some (TypeError (''Can't instantiate abstract class '' @ class_name m
                              @ '' with no schema_class'')))"

definition sample_ds_bool :: "decorator_set \<Rightarrow> bool" where
  "sample_ds_bool ds \<longleftrightarrow> ds_thread ds \<noteq> None \<or> ds_rest ds \<noteq> []"

definition sample_verify :: "signature_decorator \<Rightarrow> bool" where
  "sample_verify sg \<longleftrightarrow> signature sg = ''sealed:'' @ signer sg @ '':'' @ sig_data sg"

definition sample_create :: "jval \<Rightarrow> string \<Rightarrow> nat option \<Rightarrow> signature_decorator" where
  "sample_create v k ts =
     \<lparr>signer = k, sig_data = ''payload'', signature = ''sealed:'' @ k @ '':payload''\<rparr>"

definition Ping_Meta :: message_meta where
  "Ping_Meta = \<lparr>class_name = ''Ping'', handler_class = None, schema_class = Some ''PingSchema'',
                message_type = Some ''test/1.0/ping''\<rparr>"

definition Untyped_Meta :: message_meta where
  "Untyped_Meta = \<lparr>class_name = ''Untyped'', handler_class = None,
                   schema_class = Some ''UntypedSchema'', message_type = None\<rparr>"

definition good_sig :: signature_decorator where
  "good_sig = \<lparr>signer = ''key-1'', sig_data = ''payload'', signature = ''sealed:key-1:payload''\<rparr>"

definition bad_sig :: signature_decorator where
  "bad_sig = \<lparr>signer = ''key-2'', sig_data = ''payload'', signature = ''forged''\<rparr>"

definition ping :: agent_message where
  "ping = \<lparr>meta = Ping_Meta, message_id = ''msg-1'', message_new_id = False,
           message_decorators = DecoratorSet, attrs = [(''value'', JStr ''hello'')]\<rparr>"

definition signed_ping :: agent_message where
  "signed_ping = set_signature ''value'' good_sig ping"

definition forged_ping :: agent_message where
  "forged_ping = set_signature ''other'' good_sig (set_signature ''value'' bad_sig ping)"

definition threaded_ping :: agent_message where
  "threaded_ping = set_thread \<lparr>thid = Some ''T'', pthid = Some ''P''\<rparr> ping"

definition empty_thid_ping :: agent_message where
  "empty_thid_ping = set_thread \<lparr>thid = Some [], pthid = Some ''P''\<rparr> ping"

definition reply :: agent_message where
  "reply = \<lparr>meta = Ping_Meta, message_id = ''msg-2'', message_new_id = True,
            message_decorators = DecoratorSet, attrs = []\<rparr>"

text \<open>
  A field schema for the sample kind: it serializes \<open>_type\<close> and \<open>_id\<close> under \<open>@type\<close>
  and \<open>@id\<close>, then the attributes of the kind under their own names; loading reads the
  \<open>@id\<close> and takes every other item but \<open>@type\<close> as an attribute.
\<close>

definition sample_dump_fields :: "agent_message \<Rightarrow> error + jval odict" where
  "sample_dump_fields obj =
     Inr ((''@type'', opt_str (get_type obj)) # (''@id'', JStr (get_id obj)) # attrs obj)"

definition sample_load_fields :: "jval odict \<Rightarrow> error + (string option \<times> jval odict)" where
  "sample_load_fields d =
     (case map_of d ''@id'' of
        None \<Rightarrow> Inr (None, AList.delete ''@type'' d)
      | Some (JStr s) \<Rightarrow> Inr (Some s, AList.delete ''@id'' (AList.delete ''@type'' d))
      | Some other \<Rightarrow> Inl (ValidationError ''Not a valid string.''))"

definition sample_decode :: "signature_decorator \<Rightarrow> jval \<times> nat" where
  "sample_decode sg = (JStr (sig_data sg), 0)"

definition unsigned_schema :: agent_message_schema where
  "unsigned_schema =
     \<lparr>smeta = \<lparr>schema_name = ''PingSchema'', model_class = Some ''Ping'', signed_fields = None\<rparr>,
      decorators = DecoratorSet, decorators_dict = None, signatures = []\<rparr>"

definition signed_schema :: agent_message_schema where
  "signed_schema =
     \<lparr>smeta = \<lparr>schema_name = ''SignedPingSchema'', model_class = Some ''Ping'',
               signed_fields = Some [''value'']\<rparr>,
      decorators = DecoratorSet, decorators_dict = None, signatures = []\<rparr>"

text \<open>Wire data for the sample kind: signed, unsigned, and with both value and signature.\<close>

definition wire_signed :: "jval odict" where
  "wire_signed =
     [(''@type'', JStr ''test/1.0/ping''), (''@id'', JStr ''msg-1''),
      (''value~sig'', sig_serialize good_sig)]"

definition wire_plain :: "jval odict" where
  "wire_plain =
     [(''@type'', JStr ''test/1.0/ping''), (''@id'', JStr ''msg-1''),
      (''value'', JStr ''hello'')]"

definition wire_both :: "jval odict" where
  "wire_both =
     [(''@type'', JStr ''test/1.0/ping''), (''@id'', JStr ''msg-1''),
      (''value'', JStr ''hello''), (''value~sig'', sig_serialize good_sig)]"

text \<open>
  A message with a thread decorator, a signed field and an unsigned one; and a message
  that holds a signature for a field it has no value for.
\<close>

definition full_ping :: agent_message where
  "full_ping =
     set_thread \<lparr>thid = Some ''T'', pthid = Some ''P''\<rparr>
       (set_signature ''value'' good_sig
          (ping\<lparr>attrs := [(''value'', JStr ''hello''), (''note'', JStr ''hi'')]\<rparr>))"

definition orphan_ping :: agent_message where
  "orphan_ping = set_signature ''other'' good_sig ping"

section \<open>Facts used to evaluate the samples\<close>

lemmas sample_defs = sample_base_init_def sample_ds_bool_def sample_verify_def sample_create_def
  Ping_Meta_def Untyped_Meta_def good_sig_def bad_sig_def ping_def signed_ping_def
  forged_ping_def threaded_ping_def empty_thid_ping_def reply_def sample_dump_fields_def
  sample_load_fields_def sample_decode_def unsigned_schema_def signed_schema_def
  wire_signed_def wire_plain_def wire_both_def full_ping_def orphan_ping_def

lemmas msg_defs = set_signature_def field_def empty_field_def DecoratorSet_def
  get_signature_def stored_sig_def verify_signed_field_def set_thread_def get_thread_def
  assign_thread_from_def assign_thread_id_def

lemmas codec_defs = ds_extract_decorators_def store_decorator_def sig_serialize_def
  thread_serialize_def ds_to_dict_def field_to_dict_def

lemmas load_defs = extract_decorators_def check_signed_fields_def expect_fields_def keys_def
  unexpected_signature_def signature_and_value_def expected_signature_def


lemmas dump_defs = dump_def check_dump_decorators_def dump_decorators_def replace_signatures_def
  del_item_def get_decorators_def get_type_def get_id_def expect_fields_def missing_signature_def

section \<open>Verifying a single signed field\<close>

text \<open>
  C3. \<open>verify_signed_field\<close> raises \<open>BaseModelError\<close> when no signature is stored for the
  field, when the stored signature does not verify, and when an expected signer is given
  and differs from the stored signer; in the remaining case it returns the stored signer.
\<close>

theorem verify_signed_field_cases:
  "(stored_sig (message_decorators self) field_name = None \<longrightarrow>
      fst (verify_signed_field verify field_name signer_verkey self)
        = Inl (BaseModelError (''Missing field signature: '' @ field_name)))
   \<and> (\<forall>sg. stored_sig (message_decorators self) field_name = Some sg \<longrightarrow>
        (\<not> verify sg \<longrightarrow>
           fst (verify_signed_field verify field_name signer_verkey self)
             = Inl (BaseModelError (''Field signature verification failed: '' @ field_name)))
      \<and> (verify sg \<longrightarrow> (\<exists>k. signer_verkey = Some k \<and> k \<noteq> signer sg) \<longrightarrow>
           fst (verify_signed_field verify field_name signer_verkey self)
             = Inl (BaseModelError
                      (''Signer verkey of signature does not match: '' @ field_name)))
      \<and> (verify sg \<longrightarrow> (signer_verkey = None \<or> signer_verkey = Some (signer sg)) \<longrightarrow>
           fst (verify_signed_field verify field_name signer_verkey self)
             = Inr (signer sg)))"
proof (cases "stored_sig (message_decorators self) field_name")
  case None
  then show ?thesis
    by (auto simp: verify_signed_field_def get_signature_def field_def stored_sig_def
          empty_field_def split: option.splits)
next
  case (Some sg)
  then have "fst (get_signature field_name self) = Some sg"
    by (auto simp: get_signature_def field_def stored_sig_def split: option.splits)
  then show ?thesis
    using Some by (auto simp: verify_signed_field_def split: prod.splits)
qed

theorem verify_signed_field_cases_witness:
  "stored_sig (message_decorators ping) ''value'' = None
   \<and> fst (verify_signed_field sample_verify ''value'' None ping)
       = Inl (BaseModelError ''Missing field signature: value'')
   \<and> stored_sig (message_decorators forged_ping) ''value'' = Some bad_sig
   \<and> \<not> sample_verify bad_sig
   \<and> fst (verify_signed_field sample_verify ''value'' None forged_ping)
       = Inl (BaseModelError ''Field signature verification failed: value'')
   \<and> stored_sig (message_decorators signed_ping) ''value'' = Some good_sig
   \<and> sample_verify good_sig
   \<and> fst (verify_signed_field sample_verify ''value'' (Some ''key-9'') signed_ping)
       = Inl (BaseModelError ''Signer verkey of signature does not match: value'')
   \<and> fst (verify_signed_field sample_verify ''value'' (Some ''key-1'') signed_ping)
       = Inr ''key-1''
   \<and> fst (verify_signed_field sample_verify ''value'' None signed_ping) = Inr ''key-1''"
proof -
  have a: "stored_sig (message_decorators ping) ''value'' = None"
    by (simp add: sample_defs msg_defs)
  have b: "stored_sig (message_decorators forged_ping) ''value'' = Some bad_sig"
    by (simp add: sample_defs msg_defs)
  have c: "stored_sig (message_decorators signed_ping) ''value'' = Some good_sig"
    by (simp add: sample_defs msg_defs)
  have d: "\<not> sample_verify bad_sig" "sample_verify good_sig"
    by (simp_all add: sample_defs)
  have e: "signer good_sig = ''key-1''" "''key-9'' \<noteq> signer good_sig"
    by (simp_all add: sample_defs)
  show ?thesis
    using a b c d e
      verify_signed_field_cases [of ping "''value''" sample_verify None]
      verify_signed_field_cases [of forged_ping "''value''" sample_verify None]
      verify_signed_field_cases [of signed_ping "''value''" sample_verify "Some ''key-9''"]
      verify_signed_field_cases [of signed_ping "''value''" sample_verify "Some ''key-1''"]
      verify_signed_field_cases [of signed_ping "''value''" sample_verify None]
    by simp
qed

section \<open>Verifying all signatures\<close>

text \<open>The loop returns true exactly when every stored signature verifies.\<close>

lemma verify_loop_result:
  "fst (verify_signatures_loop verify fds) \<longleftrightarrow> (\<forall>s \<in> set (List.map_filter fd_sig fds). verify s)"
  by (induction fds) (auto split: option.splits prod.splits)

lemma verify_loop_first_failure:
  "\<forall>s \<in> set (List.map_filter fd_sig pre). verify s \<Longrightarrow> fd_sig fd = Some sg \<Longrightarrow> \<not> verify sg \<Longrightarrow>
   verify_signatures_loop verify (pre @ fd # post) = (False, List.map_filter fd_sig pre @ [sg])"
  by (induction pre) (auto split: option.splits prod.splits)

lemma verify_loop_no_sig:
  "List.map_filter fd_sig fds = [] \<Longrightarrow> verify_signatures_loop verify fds = (True, [])"
  by (induction fds) (auto split: option.splits prod.splits)

text \<open>
  C4. \<open>verify_signatures\<close> returns true when no per-field entry holds a \<open>"sig"\<close>;
  at the first stored signature that fails to verify it returns false, and the calls made
  to the wallet are the signatures before it and itself, none after it; it returns true
  if and only if every stored signature verifies.
\<close>

theorem verify_signatures_short_circuit:
  "(stored_sigs self = [] \<longrightarrow>
      verify_signatures verify self \<and> verify_signatures_calls verify self = [])
   \<and> (\<forall>pre name fd sg post.
        ds_fields (message_decorators self) = pre @ (name, fd) # post
        \<and> fd_sig fd = Some sg \<and> \<not> verify sg
        \<and> (\<forall>s \<in> set (List.map_filter fd_sig (map snd pre)). verify s) \<longrightarrow>
        \<not> verify_signatures verify self
        \<and> verify_signatures_calls verify self = List.map_filter fd_sig (map snd pre) @ [sg])
   \<and> (verify_signatures verify self \<longleftrightarrow> (\<forall>s \<in> set (stored_sigs self). verify s))"
proof (intro conjI allI impI)
  assume "stored_sigs self = []"
  then show "verify_signatures verify self"
    by (simp add: stored_sigs_def verify_signatures_def verify_loop_no_sig)
next
  assume "stored_sigs self = []"
  then show "verify_signatures_calls verify self = []"
    by (simp add: stored_sigs_def verify_signatures_calls_def verify_loop_no_sig)
next
  fix pre name fd sg post
  assume h: "ds_fields (message_decorators self) = pre @ (name, fd) # post
        \<and> fd_sig fd = Some sg \<and> \<not> verify sg
        \<and> (\<forall>s \<in> set (List.map_filter fd_sig (map snd pre)). verify s)"
  then have "verify_signatures_loop verify (map snd pre @ fd # map snd post)
               = (False, List.map_filter fd_sig (map snd pre) @ [sg])"
    by (intro verify_loop_first_failure) auto
  with h show "\<not> verify_signatures verify self"
    and "verify_signatures_calls verify self = List.map_filter fd_sig (map snd pre) @ [sg]"
    by (simp_all add: verify_signatures_def verify_signatures_calls_def)
next
  show "verify_signatures verify self \<longleftrightarrow> (\<forall>s \<in> set (stored_sigs self). verify s)"
    by (simp add: verify_signatures_def stored_sigs_def verify_loop_result)
qed


theorem verify_signatures_short_circuit_witness:
  "stored_sigs ping = []
   \<and> verify_signatures sample_verify ping
   \<and> verify_signatures_calls sample_verify ping = []
   \<and> ds_fields (message_decorators forged_ping)
       = [] @ (''value'', \<lparr>fd_sig = Some bad_sig, fd_rest = []\<rparr>)
            # [(''other'', \<lparr>fd_sig = Some good_sig, fd_rest = []\<rparr>)]
   \<and> \<not> sample_verify bad_sig
   \<and> \<not> verify_signatures sample_verify forged_ping
   \<and> verify_signatures_calls sample_verify forged_ping = [bad_sig]
   \<and> stored_sigs signed_ping = [good_sig]
   \<and> sample_verify good_sig
   \<and> verify_signatures sample_verify signed_ping"
proof -
  have a: "stored_sigs ping = []"
    by (simp add: stored_sigs_def sample_defs msg_defs)
  have b: "ds_fields (message_decorators forged_ping)
       = [] @ (''value'', \<lparr>fd_sig = Some bad_sig, fd_rest = []\<rparr>)
            # [(''other'', \<lparr>fd_sig = Some good_sig, fd_rest = []\<rparr>)]"
    by (simp add: sample_defs msg_defs)
  have c: "stored_sigs signed_ping = [good_sig]"
    by (simp add: stored_sigs_def sample_defs msg_defs)
  have d: "\<not> sample_verify bad_sig" "sample_verify good_sig"
    by (simp_all add: sample_defs)
  have e: "ds_fields (message_decorators forged_ping)
              = [] @ (''value'', \<lparr>fd_sig = Some bad_sig, fd_rest = []\<rparr>)
                   # [(''other'', \<lparr>fd_sig = Some good_sig, fd_rest = []\<rparr>)]
            \<and> fd_sig \<lparr>fd_sig = Some bad_sig, fd_rest = []\<rparr> = Some bad_sig
            \<and> \<not> sample_verify bad_sig
            \<and> (\<forall>s \<in> set (List.map_filter fd_sig (map snd ([] :: field_decorators odict))).
                   sample_verify s)"
    using b d by simp
  note first_failure =
    verify_signatures_short_circuit [of forged_ping sample_verify, THEN conjunct2,
      THEN conjunct1, rule_format, OF e]
  have f: "\<not> verify_signatures sample_verify forged_ping
        \<and> verify_signatures_calls sample_verify forged_ping = [bad_sig]"
    using first_failure by simp
  show ?thesis
    using a b c d f
      verify_signatures_short_circuit [of ping sample_verify]
      verify_signatures_short_circuit [of signed_ping sample_verify]
    by simp
qed


section \<open>Thread derivation\<close>

text \<open>
  C5 (amended). \<open>assign_thread_from\<close> on an absent previous message changes nothing.
  Otherwise the thread decorator is set: \<open>thid\<close> is the previous thread's \<open>thid\<close> when
  the previous message has a thread decorator whose \<open>thid\<close> is present and not the empty
  string, and the previous message's id otherwise; \<open>pthid\<close> is the previous thread's
  \<open>pthid\<close>, absent when there is no previous thread decorator.
\<close>

theorem assign_thread_from_cases:
  "assign_thread_from None self = self
   \<and> (get_thread a = None \<longrightarrow>
        get_thread (assign_thread_from (Some a) self)
          = Some \<lparr>thid = Some (message_id a), pthid = None\<rparr>)
   \<and> (\<forall>t. get_thread a = Some t \<longrightarrow>
        (truthy (thid t) \<longrightarrow>
           get_thread (assign_thread_from (Some a) self)
             = Some \<lparr>thid = thid t, pthid = pthid t\<rparr>)
      \<and> (\<not> truthy (thid t) \<longrightarrow>
           get_thread (assign_thread_from (Some a) self)
             = Some \<lparr>thid = Some (message_id a), pthid = pthid t\<rparr>))"
proof (intro conjI allI impI)
  show "assign_thread_from None self = self"
    by (simp add: assign_thread_from_def)
next
  assume "get_thread a = None"
  then show "get_thread (assign_thread_from (Some a) self)
               = Some \<lparr>thid = Some (message_id a), pthid = None\<rparr>"
    by (simp add: assign_thread_from_def assign_thread_id_def set_thread_def get_thread_def)
next
  fix t
  assume t: "get_thread a = Some t"
  have set: "get_thread (assign_thread_id th pth self) = Some \<lparr>thid = th, pthid = pth\<rparr>"
    for th pth
    by (simp add: assign_thread_id_def set_thread_def get_thread_def)
  { assume "truthy (thid t)"
    with t have "assign_thread_from (Some a) self = assign_thread_id (thid t) (pthid t) self"
      by (simp add: assign_thread_from_def)
    then show "get_thread (assign_thread_from (Some a) self)
                 = Some \<lparr>thid = thid t, pthid = pthid t\<rparr>"
      by (simp add: set) }
  { assume "\<not> truthy (thid t)"
    with t have "assign_thread_from (Some a) self
                   = assign_thread_id (Some (message_id a)) (pthid t) self"
      by (simp add: assign_thread_from_def)
    then show "get_thread (assign_thread_from (Some a) self)
                 = Some \<lparr>thid = Some (message_id a), pthid = pthid t\<rparr>"
      by (simp add: set) }
qed

theorem assign_thread_from_cases_witness:
  "assign_thread_from None reply = reply
   \<and> get_thread ping = None
   \<and> get_thread (assign_thread_from (Some ping) reply)
       = Some \<lparr>thid = Some ''msg-1'', pthid = None\<rparr>
   \<and> get_thread threaded_ping = Some \<lparr>thid = Some ''T'', pthid = Some ''P''\<rparr>
   \<and> truthy (Some ''T'')
   \<and> get_thread (assign_thread_from (Some threaded_ping) reply)
       = Some \<lparr>thid = Some ''T'', pthid = Some ''P''\<rparr>
   \<and> get_thread empty_thid_ping = Some \<lparr>thid = Some [], pthid = Some ''P''\<rparr>
   \<and> \<not> truthy (Some [])
   \<and> get_thread (assign_thread_from (Some empty_thid_ping) reply)
       = Some \<lparr>thid = Some ''msg-1'', pthid = Some ''P''\<rparr>"
proof -
  have a: "get_thread ping = None"
    by (simp add: sample_defs msg_defs)
  have b: "get_thread threaded_ping = Some \<lparr>thid = Some ''T'', pthid = Some ''P''\<rparr>"
    by (simp add: sample_defs msg_defs)
  have c: "get_thread empty_thid_ping = Some \<lparr>thid = Some [], pthid = Some ''P''\<rparr>"
    by (simp add: sample_defs msg_defs)
  have d: "message_id ping = ''msg-1''" "message_id threaded_ping = ''msg-1''"
    "message_id empty_thid_ping = ''msg-1''"
    by (simp_all add: sample_defs msg_defs)
  show ?thesis
    using a b c d
      assign_thread_from_cases [of reply ping]
      assign_thread_from_cases [of reply threaded_ping]
      assign_thread_from_cases [of reply empty_thid_ping]
    by simp
qed

text \<open>
  A previous message whose thread decorator carries the empty string as \<open>thid\<close>: the
  new thread does not take that \<open>thid\<close>, it takes the previous message's id.
\<close>

theorem assign_thread_from_empty_thid_counterexample:
  "get_thread empty_thid_ping = Some \<lparr>thid = Some [], pthid = Some ''P''\<rparr>
   \<and> get_thread (assign_thread_from (Some empty_thid_ping) reply)
       \<noteq> Some \<lparr>thid = Some [], pthid = Some ''P''\<rparr>"
  by (simp add: sample_defs msg_defs)


section \<open>The message identifier\<close>

text \<open>No operation but the \<open>_id\<close> setter writes \<open>_message_id\<close>.\<close>

lemma field_message_id [simp]:
  "message_id (snd (get_signature f self)) = message_id self"
  by (simp add: get_signature_def split: prod.splits)

lemma set_signature_message_id [simp]:
  "message_id (set_signature f sg self) = message_id self"
  by (simp add: set_signature_def split: prod.splits)

lemma sign_field_message_id [simp]:
  "message_id (snd (sign_field create f k ts self)) = message_id self"
  by (simp add: sign_field_def Let_def split: option.splits jval.splits)

lemma verify_signed_field_message_id [simp]:
  "message_id (snd (verify_signed_field verify f k self)) = message_id self"
proof -
  obtain sg self' where g: "get_signature f self = (sg, self')"
    by (cases "get_signature f self")
  then have "message_id self' = message_id self"
    using field_message_id [of f self] by simp
  with g show ?thesis
    by (simp add: verify_signed_field_def split: option.splits)
qed

lemma assign_thread_message_id [simp]:
  "message_id (set_thread t self) = message_id self"
  "message_id (assign_thread_id th pth self) = message_id self"
  "message_id (assign_thread_from msg self) = message_id self"
  by (simp_all add: set_thread_def assign_thread_id_def assign_thread_from_def Let_def
        split: option.splits)

lemma run_operation_message_id:
  "\<not> is_SetId op \<Longrightarrow> message_id (run_operation create verify op self) = message_id self"
  by (cases op) (simp_all add: set_decorators_def)

lemma run_operations_message_id:
  "list_all (\<lambda>op. \<not> is_SetId op) ops \<Longrightarrow>
   message_id (run_operations create verify ops self) = message_id self"
  by (induction ops arbitrary: self) (simp_all add: run_operation_message_id)

text \<open>
  C7 (amended). At construction the identifier is the supplied one when it is a non-empty
  string, and is generated when none (or the empty string) is supplied. After
  construction no operation of the message other than the \<open>_id\<close> setter changes it, nor
  does the schema's \<open>populate_decorators\<close>; the setter replaces it.
\<close>

theorem message_id_frame:
  "(\<forall>self. init base_init ds_bool fresh m id_arg decorators_arg kind_attrs = Inr self \<longrightarrow>
      (id_arg = None \<longrightarrow> message_id self = fresh \<and> message_new_id self)
    \<and> (id_arg = Some [] \<longrightarrow> message_id self = fresh \<and> message_new_id self)
    \<and> (\<forall>s. id_arg = Some s \<and> s \<noteq> [] \<longrightarrow> message_id self = s \<and> \<not> message_new_id self))
   \<and> (\<forall>ops self. list_all (\<lambda>op. \<not> is_SetId op) ops \<longrightarrow>
        message_id (run_operations create verify ops self) = message_id self)
   \<and> (\<forall>sch self. message_id (populate_decorators sch self) = message_id self)
   \<and> (\<forall>val self. message_id (run_operation create verify (SetId val) self) = val)"
proof (intro conjI allI impI)
  fix self
  assume "init base_init ds_bool fresh m id_arg decorators_arg kind_attrs = Inr self"
  then have s: "message_id self = (case id_arg of None \<Rightarrow> fresh
                                    | Some s \<Rightarrow> if s = [] then fresh else s)"
    "message_new_id self = (\<not> truthy id_arg)"
    by (auto simp: init_def Let_def split: option.splits if_splits)
  { assume "id_arg = None"
    with s show "message_id self = fresh" "message_new_id self" by simp_all }
  { assume "id_arg = Some []"
    with s show "message_id self = fresh" "message_new_id self" by simp_all }
  { fix t assume "id_arg = Some t \<and> t \<noteq> []"
    with s show "message_id self = t" "\<not> message_new_id self" by simp_all }
next
  fix ops self
  assume "list_all (\<lambda>op. \<not> is_SetId op) ops"
  then show "message_id (run_operations create verify ops self) = message_id self"
    by (rule run_operations_message_id)
next
  fix sch self
  show "message_id (populate_decorators sch self) = message_id self"
    by (simp add: populate_decorators_def set_decorators_def)
next
  fix val self
  show "message_id (run_operation create verify (SetId val) self) = val"
    by (simp add: set_id_def)
qed


theorem message_id_frame_witness:
  "init sample_base_init sample_ds_bool ''uuid-1'' Ping_Meta None None []
     = Inr \<lparr>meta = Ping_Meta, message_id = ''uuid-1'', message_new_id = True,
            message_decorators = DecoratorSet, attrs = []\<rparr>
   \<and> init sample_base_init sample_ds_bool ''uuid-1'' Ping_Meta (Some []) None []
     = Inr \<lparr>meta = Ping_Meta, message_id = ''uuid-1'', message_new_id = True,
            message_decorators = DecoratorSet, attrs = []\<rparr>
   \<and> init sample_base_init sample_ds_bool ''uuid-1'' Ping_Meta (Some ''msg-7'') None []
     = Inr \<lparr>meta = Ping_Meta, message_id = ''msg-7'', message_new_id = False,
            message_decorators = DecoratorSet, attrs = []\<rparr>
   \<and> list_all (\<lambda>op. \<not> is_SetId op)
        [SignField ''value'' ''key-1'' None, VerifySignedField ''value'' None,
         AssignThreadFrom (Some threaded_ping), SetDecorators DecoratorSet]
   \<and> message_id (run_operations sample_create sample_verify
        [SignField ''value'' ''key-1'' None, VerifySignedField ''value'' None,
         AssignThreadFrom (Some threaded_ping), SetDecorators DecoratorSet] ping) = ''msg-1''
   \<and> message_id (run_operation sample_create sample_verify (SetId ''msg-9'') ping) = ''msg-9''"
proof -
  have a: "init sample_base_init sample_ds_bool ''uuid-1'' Ping_Meta None None []
     = Inr \<lparr>meta = Ping_Meta, message_id = ''uuid-1'', message_new_id = True,
            message_decorators = DecoratorSet, attrs = []\<rparr>"
    "init sample_base_init sample_ds_bool ''uuid-1'' Ping_Meta (Some []) None []
     = Inr \<lparr>meta = Ping_Meta, message_id = ''uuid-1'', message_new_id = True,
            message_decorators = DecoratorSet, attrs = []\<rparr>"
    "init sample_base_init sample_ds_bool ''uuid-1'' Ping_Meta (Some ''msg-7'') None []
     = Inr \<lparr>meta = Ping_Meta, message_id = ''msg-7'', message_new_id = False,
            message_decorators = DecoratorSet, attrs = []\<rparr>"
    by (simp_all add: init_def sample_base_init_def Ping_Meta_def)
  have b: "list_all (\<lambda>op. \<not> is_SetId op)
        [SignField ''value'' ''key-1'' None, VerifySignedField ''value'' None,
         AssignThreadFrom (Some threaded_ping), SetDecorators DecoratorSet]"
    by simp
  have c: "message_id ping = ''msg-1''"
    by (simp add: ping_def)
  note frame = message_id_frame [of sample_base_init sample_ds_bool "''uuid-1''" Ping_Meta None
      None "[]" sample_create sample_verify]
  have d: "message_id (run_operations sample_create sample_verify
        [SignField ''value'' ''key-1'' None, VerifySignedField ''value'' None,
         AssignThreadFrom (Some threaded_ping), SetDecorators DecoratorSet] ping)
          = message_id ping"
    by (rule frame [THEN conjunct2, THEN conjunct1, rule_format, OF b])
  have e: "message_id (run_operation sample_create sample_verify (SetId ''msg-9'') ping)
             = ''msg-9''"
    by (rule frame [THEN conjunct2, THEN conjunct2, THEN conjunct2, rule_format])
  show ?thesis
    using a b c d e
    by simp
qed

text \<open>The \<open>_id\<close> setter changes the identifier of a constructed message.\<close>

theorem message_id_setter_counterexample:
  "message_id ping = ''msg-1''
   \<and> message_id (run_operation sample_create sample_verify (SetId ''msg-9'') ping) = ''msg-9''
   \<and> message_id (run_operation sample_create sample_verify (SetId ''msg-9'') ping)
       \<noteq> message_id ping"
  by (simp add: set_id_def ping_def)


section \<open>The check of the message type\<close>

text \<open>
  C8 (amended). The check of the declared message type is made by \<open>__init__\<close>, at every
  construction of an instance: when the base class accepts the kind and the declared
  type is missing or empty, the construction raises \<open>TypeError\<close>; when the declared type
  is non-empty, the construction succeeds, and the only error a construction can raise is
  the base class's own.
\<close>

theorem init_message_type_check:
  "(base_init m = None \<and> \<not> truthy (message_type m) \<longrightarrow>
      init base_init ds_bool fresh m id_arg decorators_arg kind_attrs = Inl (no_message_type m))
   \<and> (base_init m = None \<and> truthy (message_type m) \<longrightarrow>
        (\<exists>self. init base_init ds_bool fresh m id_arg decorators_arg kind_attrs = Inr self
                \<and> meta self = m))
   \<and> (\<forall>e. truthy (message_type m)
          \<and> init base_init ds_bool fresh m id_arg decorators_arg kind_attrs = Inl e \<longrightarrow>
          base_init m = Some e)"
proof (intro conjI allI impI)
  assume "base_init m = None \<and> \<not> truthy (message_type m)"
  then show "init base_init ds_bool fresh m id_arg decorators_arg kind_attrs
               = Inl (no_message_type m)"
    by (simp add: init_def Let_def)
next
  assume "base_init m = None \<and> truthy (message_type m)"
  then show "\<exists>self. init base_init ds_bool fresh m id_arg decorators_arg kind_attrs = Inr self
                  \<and> meta self = m"
    by (simp add: init_def Let_def)
next
  fix e
  assume a: "truthy (message_type m)
             \<and> init base_init ds_bool fresh m id_arg decorators_arg kind_attrs = Inl e"
  show "base_init m = Some e"
  proof (cases "base_init m")
    case None
    from a have "truthy (message_type m)"
      and "init base_init ds_bool fresh m id_arg decorators_arg kind_attrs = Inl e"
      by simp_all
    with None show ?thesis
      by (simp add: init_def Let_def)
  next
    case (Some e')
    with a show ?thesis
      by (simp add: init_def)
  qed
qed

theorem init_message_type_check_witness:
  "sample_base_init Untyped_Meta = None
   \<and> \<not> truthy (message_type Untyped_Meta)
   \<and> init sample_base_init sample_ds_bool ''uuid-1'' Untyped_Meta (Some ''msg-1'') None []
       = Inl (TypeError ''Can't instantiate abstract class Untyped with no message_type'')
   \<and> sample_base_init Ping_Meta = None
   \<and> truthy (message_type Ping_Meta)
   \<and> (\<exists>self. init sample_base_init sample_ds_bool ''uuid-1'' Ping_Meta (Some ''msg-1'') None []
                = Inr self \<and> meta self = Ping_Meta)
   \<and> truthy (message_type (Ping_Meta\<lparr>schema_class := None\<rparr>))
   \<and> init sample_base_init sample_ds_bool ''uuid-1'' (Ping_Meta\<lparr>schema_class := None\<rparr>)
         (Some ''msg-1'') None []
       = Inl (TypeError ''Can't instantiate abstract class Ping with no schema_class'')
   \<and> sample_base_init (Ping_Meta\<lparr>schema_class := None\<rparr>)
       = Some (TypeError ''Can't instantiate abstract class Ping with no schema_class'')"
proof -
  have a: "sample_base_init Untyped_Meta = None \<and> \<not> truthy (message_type Untyped_Meta)"
    by (simp add: sample_base_init_def Untyped_Meta_def)
  have b: "sample_base_init Ping_Meta = None \<and> truthy (message_type Ping_Meta)"
    by (simp add: sample_base_init_def Ping_Meta_def)
  have c: "truthy (message_type (Ping_Meta\<lparr>schema_class := None\<rparr>))
           \<and> init sample_base_init sample_ds_bool ''uuid-1'' (Ping_Meta\<lparr>schema_class := None\<rparr>)
                (Some ''msg-1'') None []
              = Inl (TypeError ''Can't instantiate abstract class Ping with no schema_class'')"
    by (simp add: init_def sample_base_init_def Ping_Meta_def)
  have d: "no_message_type Untyped_Meta
             = TypeError ''Can't instantiate abstract class Untyped with no message_type''"
    by (simp add: no_message_type_def Untyped_Meta_def)
  note t1 = init_message_type_check [of sample_base_init Untyped_Meta sample_ds_bool "''uuid-1''"
      "Some ''msg-1''" None "[]", THEN conjunct1, rule_format, OF a]
  note t2 = init_message_type_check [of sample_base_init Ping_Meta sample_ds_bool "''uuid-1''"
      "Some ''msg-1''" None "[]", THEN conjunct2, THEN conjunct1, rule_format, OF b]
  note t3 = init_message_type_check [of sample_base_init "Ping_Meta\<lparr>schema_class := None\<rparr>"
      sample_ds_bool "''uuid-1''" "Some ''msg-1''" None "[]", THEN conjunct2, THEN conjunct2,
      rule_format, OF c]
  show ?thesis
    using a b c d t1 t2 t3 by simp
qed

text \<open>
  A kind declared without a message type: the error is raised when an instance is
  constructed.
\<close>

theorem init_raises_at_instantiation_counterexample:
  "message_type Untyped_Meta = None
   \<and> init sample_base_init sample_ds_bool ''uuid-1'' Untyped_Meta (Some ''msg-1'') None []
       = Inl (TypeError ''Can't instantiate abstract class Untyped with no message_type'')"
  by (simp add: init_def sample_base_init_def Untyped_Meta_def no_message_type_def)


section \<open>The check of required signatures before dumping\<close>

text \<open>
  The keys of the schema's \<open>_signatures\<close> after the \<open>pre_dump\<close> hook are the names of
  the per-field entries that hold a signature.
\<close>

lemma move_signatures_snd_Cons:
  "snd (move_signatures serialize ((name, fd) # rest) sigs)
     = snd (move_signatures serialize rest
              (case fd_sig fd of None \<Rightarrow> sigs | Some sg \<Rightarrow> AList.update name (serialize sg) sigs))"
  by (simp add: case_prod_beta split: option.splits)

lemma keys_update:
  "keys (AList.update k v d) = (if k \<in> set (keys d) then keys d else keys d @ [k])"
  by (simp add: keys_def update_keys)

lemma move_signatures_key_set:
  "set (keys (snd (move_signatures serialize fs sigs)))
     = set (keys sigs) \<union> set (map fst (filter (\<lambda>entry. fd_sig (snd entry) \<noteq> None) fs))"
proof (induction fs arbitrary: sigs)
  case Nil
  then show ?case by simp
next
  case (Cons entry fs)
  obtain name fd where entry: "entry = (name, fd)"
    by (cases entry)
  show ?case
    unfolding entry move_signatures_snd_Cons Cons.IH
    by (cases "fd_sig fd") (auto simp: keys_update)
qed

lemma check_signed_None:
  "check_signed expect sigs = None \<longleftrightarrow> set expect \<subseteq> set (keys sigs)"
  by (induction expect) auto

lemma check_signed_Some:
  "check_signed expect sigs = Some e \<Longrightarrow>
   \<exists>f \<in> set expect. f \<notin> set (keys sigs) \<and> e = missing_signature f"
  by (induction expect) (auto split: if_splits)

lemma check_dump_decorators_missing:
  assumes "\<exists>f \<in> set (expect_fields sch). f \<notin> set (signed_names (message_decorators obj))"
  shows "\<exists>f \<in> set (expect_fields sch). f \<notin> set (signed_names (message_decorators obj))
           \<and> snd (check_dump_decorators to_dict serialize sch obj)
               = Inl (missing_signature f)"
proof -
  obtain fields' sigs where m:
    "move_signatures serialize (ds_fields (message_decorators obj)) [] = (fields', sigs)"
    by (cases "move_signatures serialize (ds_fields (message_decorators obj)) []")
  then have k: "set (keys sigs) = set (signed_names (message_decorators obj))"
    using move_signatures_key_set [of serialize "ds_fields (message_decorators obj)" "[]"]
    by (simp add: signed_names_def keys_def)
  with assms have "\<not> set (expect_fields sch) \<subseteq> set (keys sigs)"
    by auto
  then obtain e where e: "check_signed (expect_fields sch) sigs = Some e"
    using check_signed_None [of "expect_fields sch" sigs] by (cases "check_signed (expect_fields sch) sigs") auto
  from check_signed_Some [OF e] k obtain f where
    f: "f \<in> set (expect_fields sch)" "f \<notin> set (signed_names (message_decorators obj))"
       "e = missing_signature f"
    by auto
  have "snd (check_dump_decorators to_dict serialize sch obj) = Inl e"
    using m e by (simp add: check_dump_decorators_def get_decorators_def Let_def expect_fields_def)
  with f show ?thesis by auto
qed

text \<open>
  C6. When some field of the signed-fields policy has no stored signature, the \<open>pre_dump\<close>
  hook raises \<open>BaseModelError\<close> ("Missing signature for field") for such a field, and so
  does the whole dump, whatever the field schema would have serialized or raised: the
  check comes before any output is composed.
\<close>

theorem dump_missing_signature:
  "(\<exists>f \<in> set (expect_fields sch). f \<notin> set (signed_names (message_decorators obj))) \<longrightarrow>
   (\<exists>f \<in> set (expect_fields sch). f \<notin> set (signed_names (message_decorators obj))
      \<and> snd (check_dump_decorators to_dict serialize sch obj)
          = Inl (missing_signature f)
      \<and> (\<forall>dump_fields. snd (dump to_dict serialize dump_fields sch obj)
          = Inl (missing_signature f)))"
proof
  assume "\<exists>f \<in> set (expect_fields sch). f \<notin> set (signed_names (message_decorators obj))"
  from check_dump_decorators_missing [OF this, of to_dict serialize]
  obtain f where f: "f \<in> set (expect_fields sch)"
    "f \<notin> set (signed_names (message_decorators obj))"
    "snd (check_dump_decorators to_dict serialize sch obj)
       = Inl (missing_signature f)"
    by auto
  then have "\<forall>dump_fields. snd (dump to_dict serialize dump_fields sch obj)
          = Inl (missing_signature f)"
    by (auto simp: dump_def split: prod.splits sum.splits)
  with f show "\<exists>f \<in> set (expect_fields sch). f \<notin> set (signed_names (message_decorators obj))
      \<and> snd (check_dump_decorators to_dict serialize sch obj)
          = Inl (missing_signature f)
      \<and> (\<forall>dump_fields. snd (dump to_dict serialize dump_fields sch obj)
          = Inl (missing_signature f))"
    by auto
qed

theorem dump_missing_signature_witness:
  "expect_fields signed_schema = [''value'']
   \<and> signed_names (message_decorators ping) = []
   \<and> snd (check_dump_decorators ds_to_dict sig_serialize signed_schema ping)
       = Inl (BaseModelError ''Missing signature for field: value'')
   \<and> snd (dump ds_to_dict sig_serialize sample_dump_fields signed_schema ping)
       = Inl (BaseModelError ''Missing signature for field: value'')"
proof -
  have a: "expect_fields signed_schema = [''value'']"
    by (simp add: expect_fields_def signed_schema_def)
  have b: "signed_names (message_decorators ping) = []"
    by (simp add: signed_names_def ping_def DecoratorSet_def)
  from dump_missing_signature [of signed_schema ping ds_to_dict sig_serialize] a b
  have "snd (check_dump_decorators ds_to_dict sig_serialize signed_schema ping)
          = Inl (missing_signature ''value'')
        \<and> (\<forall>dump_fields. snd (dump ds_to_dict sig_serialize dump_fields signed_schema ping)
              = Inl (missing_signature ''value''))"
    by simp
  with a b show ?thesis by (simp add: missing_signature_def)
qed


section \<open>The check of signed fields when loading\<close>

lemma sig_entries_Nil [simp]: "sig_entries [] = {}"
  by (simp add: sig_entries_def)

lemma sig_entries_Cons:
  "sig_entries ((n, fd) # fs)
     = (case fd_sig fd of None \<Rightarrow> {} | Some sg \<Rightarrow> {(n, sg)}) \<union> sig_entries fs"
  by (auto simp: sig_entries_def split: option.splits)

lemma sig_entries_fst:
  "(n, sg) \<in> sig_entries fs \<Longrightarrow> n \<in> set (map fst fs)"
  by (force simp: sig_entries_def)

lemma check_field_signatures_bad:
  "(n, sg) \<in> sig_entries fs \<Longrightarrow> n \<notin> set expect \<or> n \<in> set (keys p) \<Longrightarrow>
   \<exists>e. check_field_signatures decode expect fs p fnd = Inl e"
proof (induction fs arbitrary: p fnd)
  case Nil
  then show ?case by simp
next
  case (Cons entry fs)
  obtain m fd where entry: "entry = (m, fd)"
    by (cases entry)
  show ?case
  proof (cases "fd_sig fd")
    case None
    with Cons.prems entry have "(n, sg) \<in> sig_entries fs"
      by (simp add: sig_entries_Cons)
    from Cons.IH [OF this Cons.prems(2)] None entry show ?thesis
      by simp
  next
    case (Some sg')
    show ?thesis
    proof (cases "m \<notin> set expect \<or> m \<in> set (keys p)")
      case True
      with Some entry show ?thesis by auto
    next
      case False
      with Cons.prems entry Some have in_rest: "(n, sg) \<in> sig_entries fs"
        by (auto simp: sig_entries_Cons)
      have "n \<notin> set expect \<or> n \<in> set (keys (AList.update m (fst (decode sg')) p))"
        using Cons.prems(2) by (auto simp: keys_def update_keys)
      from Cons.IH [OF in_rest this] False Some entry show ?thesis
        by simp
    qed
  qed
qed

lemma check_field_signatures_error:
  "distinct (map fst fs) \<Longrightarrow> check_field_signatures decode expect fs p fnd = Inl e \<Longrightarrow>
   (\<exists>n sg. (n, sg) \<in> sig_entries fs \<and> n \<notin> set expect
       \<and> e = unexpected_signature n)
   \<or> (\<exists>n sg. (n, sg) \<in> sig_entries fs \<and> n \<in> set expect \<and> n \<in> set (keys p)
       \<and> e = signature_and_value n)"
proof (induction fs arbitrary: p fnd)
  case Nil
  then show ?case by simp
next
  case (Cons entry fs)
  obtain m fd where entry: "entry = (m, fd)"
    by (cases entry)
  from Cons.prems(1) entry have d: "distinct (map fst fs)" and m: "m \<notin> set (map fst fs)"
    by simp_all
  show ?case
  proof (cases "fd_sig fd")
    case None
    with Cons.prems(2) entry have "check_field_signatures decode expect fs p fnd = Inl e"
      by simp
    from Cons.IH [OF d this] entry None show ?thesis
      by (simp add: sig_entries_Cons)
  next
    case (Some sg')
    show ?thesis
    proof (cases "m \<notin> set expect")
      case True
      with Cons.prems(2) entry Some show ?thesis
        by (auto simp: sig_entries_Cons)
    next
      case in_expect: False
      show ?thesis
      proof (cases "m \<in> set (keys p)")
        case True
        with Cons.prems(2) entry Some in_expect show ?thesis
          by (auto simp: sig_entries_Cons)
      next
        case False
        with Cons.prems(2) entry Some in_expect
        have "check_field_signatures decode expect fs (AList.update m (fst (decode sg')) p)
                (AList.update m sg' fnd) = Inl e"
          by simp
        from Cons.IH [OF d this]
        consider (unexpected) n sg where "(n, sg) \<in> sig_entries fs" "n \<notin> set expect"
            "e = unexpected_signature n"
          | (conflict) n sg where "(n, sg) \<in> sig_entries fs" "n \<in> set expect"
            "n \<in> set (keys (AList.update m (fst (decode sg')) p))"
            "e = signature_and_value n"
          by blast
        then show ?thesis
        proof cases
          case unexpected
          then show ?thesis
            unfolding entry sig_entries_Cons by blast
        next
          case conflict
          from conflict(1) m have "n \<noteq> m"
            using sig_entries_fst by blast
          with conflict(3) have "n \<in> set (keys p)"
            by (auto simp: keys_def update_keys split: if_splits)
          with conflict show ?thesis
            unfolding entry sig_entries_Cons by blast
        qed
      qed
    qed
  qed
qed

lemma check_field_signatures_result:
  "distinct (map fst fs) \<Longrightarrow>
   check_field_signatures decode expect fs p fnd = Inr (p', fnd') \<Longrightarrow>
   set (keys fnd') = set (keys fnd) \<union> fst ` sig_entries fs
   \<and> (\<forall>n sg. (n, sg) \<in> sig_entries fs \<longrightarrow> map_of p' n = Some (fst (decode sg)))
   \<and> (\<forall>k. k \<notin> fst ` sig_entries fs \<longrightarrow> map_of p' k = map_of p k)"
proof (induction fs arbitrary: p fnd)
  case Nil
  then show ?case by simp
next
  case (Cons entry fs)
  obtain m fd where entry: "entry = (m, fd)"
    by (cases entry)
  from Cons.prems(1) entry have d: "distinct (map fst fs)" and m: "m \<notin> set (map fst fs)"
    by simp_all
  show ?case
  proof (cases "fd_sig fd")
    case None
    with Cons.prems(2) entry have "check_field_signatures decode expect fs p fnd = Inr (p', fnd')"
      by simp
    from Cons.IH [OF d this] entry None show ?thesis
      by (simp add: sig_entries_Cons)
  next
    case (Some sg')
    with Cons.prems(2) entry
    have r: "check_field_signatures decode expect fs (AList.update m (fst (decode sg')) p)
                (AList.update m sg' fnd) = Inr (p', fnd')"
      by (simp split: if_splits)
    have not_rest: "m \<notin> fst ` sig_entries fs"
      using m sig_entries_fst by fastforce
    from Cons.IH [OF d r]
    have ih1: "set (keys fnd') = set (keys (AList.update m sg' fnd)) \<union> fst ` sig_entries fs"
      and ih2: "\<forall>n sg. (n, sg) \<in> sig_entries fs \<longrightarrow> map_of p' n = Some (fst (decode sg))"
      and ih3: "\<forall>k. k \<notin> fst ` sig_entries fs \<longrightarrow>
                  map_of p' k = map_of (AList.update m (fst (decode sg')) p) k"
      by simp_all
    have e: "sig_entries (entry # fs) = insert (m, sg') (sig_entries fs)"
      using entry Some by (simp add: sig_entries_Cons)
    have k: "set (keys (AList.update m sg' fnd)) = insert m (set (keys fnd))"
      using dom_update [of m sg' fnd] by (simp add: keys_def)
    have c1: "set (keys fnd') = set (keys fnd) \<union> fst ` sig_entries (entry # fs)"
      using ih1 k e by auto
    have c2: "\<forall>n sg. (n, sg) \<in> sig_entries (entry # fs) \<longrightarrow> map_of p' n = Some (fst (decode sg))"
      using ih2 ih3 not_rest e by (auto simp: update_conv')
    have c3: "\<forall>k. k \<notin> fst ` sig_entries (entry # fs) \<longrightarrow> map_of p' k = map_of p k"
      using ih3 e by (auto simp: update_conv')
    from c1 c2 c3 show ?thesis by blast
  qed
qed

lemma check_expected_None:
  "check_expected expect fnd = None \<longleftrightarrow> set expect \<subseteq> set (keys fnd)"
  by (induction expect) auto

lemma check_expected_Some:
  "check_expected expect fnd = Some e \<Longrightarrow>
   \<exists>f \<in> set expect. f \<notin> set (keys fnd) \<and> e = expected_signature f"
  by (induction expect) (auto split: if_splits)

lemma stored_sig_entries:
  assumes "distinct (map fst (ds_fields ds))"
  shows "stored_sig ds n = Some sg \<longleftrightarrow> (n, sg) \<in> sig_entries (ds_fields ds)"
proof (cases "map_of (ds_fields ds) n")
  case None
  then have "\<And>fd. (n, fd) \<notin> set (ds_fields ds)"
    by (force simp: map_of_eq_None_iff)
  with None show ?thesis
    by (simp add: stored_sig_def sig_entries_def)
next
  case (Some fd)
  have "(n, fd') \<in> set (ds_fields ds) \<longleftrightarrow> fd' = fd" for fd'
    using map_of_eq_Some_iff [OF assms, of n fd'] Some by auto
  with Some show ?thesis
    by (simp add: stored_sig_def sig_entries_def)
qed


lemma check_signed_fields_Inl:
  assumes "distinct (map fst fs)" and "check_signed_fields decode expect fs p = Inl e"
  shows "(\<exists>n sg. (n, sg) \<in> sig_entries fs \<and> n \<notin> set expect
            \<and> e = unexpected_signature n)
       \<or> (\<exists>n sg. (n, sg) \<in> sig_entries fs \<and> n \<in> set expect \<and> n \<in> set (keys p)
            \<and> e = signature_and_value n)
       \<or> (\<exists>n. n \<in> set expect \<and> n \<notin> fst ` sig_entries fs
            \<and> e = expected_signature n)"
proof (cases "check_field_signatures decode expect fs p []")
  case (Inl e')
  with assms(2) have "e' = e"
    by (simp add: check_signed_fields_def)
  with check_field_signatures_error [OF assms(1) Inl] show ?thesis
    by auto
next
  case (Inr r)
  obtain p' fnd' where r: "r = (p', fnd')"
    by (cases r)
  from assms(2) Inr r have ce: "check_expected expect fnd' = Some e"
    by (simp add: check_signed_fields_def split: option.splits)
  from check_field_signatures_result [OF assms(1) Inr [unfolded r]]
  have "set (keys fnd') = fst ` sig_entries fs"
    by (simp add: keys_def)
  with check_expected_Some [OF ce] show ?thesis
    by auto
qed

lemma check_signed_fields_Inr:
  assumes "distinct (map fst fs)" and "check_signed_fields decode expect fs p = Inr p'"
  shows "(\<forall>n sg. (n, sg) \<in> sig_entries fs \<longrightarrow>
            n \<in> set expect \<and> n \<notin> set (keys p) \<and> map_of p' n = Some (fst (decode sg)))
       \<and> set expect \<subseteq> fst ` sig_entries fs
       \<and> (\<forall>k. k \<notin> fst ` sig_entries fs \<longrightarrow> map_of p' k = map_of p k)"
proof (cases "check_field_signatures decode expect fs p []")
  case (Inl e')
  with assms(2) show ?thesis
    by (simp add: check_signed_fields_def)
next
  case (Inr r)
  obtain q fnd' where r: "r = (q, fnd')"
    by (cases r)
  from assms(2) Inr r have ce: "check_expected expect fnd' = None" and q: "q = p'"
    by (simp_all add: check_signed_fields_def split: option.splits)
  note res = check_field_signatures_result [OF assms(1) Inr [unfolded r q]]
  have good: "n \<in> set expect \<and> n \<notin> set (keys p)" if a: "(n, sg) \<in> sig_entries fs" for n sg
  proof (rule ccontr)
    assume "\<not> (n \<in> set expect \<and> n \<notin> set (keys p))"
    then have b: "n \<notin> set expect \<or> n \<in> set (keys p)"
      by simp
    from check_field_signatures_bad [OF a b, of decode "[]"] Inr show False
      by simp
  qed
  have "set (keys fnd') = fst ` sig_entries fs"
    using res by (simp add: keys_def)
  with ce have sub: "set expect \<subseteq> fst ` sig_entries fs"
    by (simp add: check_expected_None)
  show ?thesis
  proof (intro conjI allI impI)
    fix n sg
    assume a: "(n, sg) \<in> sig_entries fs"
    from good [OF a] show "n \<in> set expect" and "n \<notin> set (keys p)"
      by simp_all
    from res a show "map_of p' n = Some (fst (decode sg))"
      by simp
  next
    show "set expect \<subseteq> fst ` sig_entries fs"
      by (rule sub)
  next
    fix k
    assume "k \<notin> fst ` sig_entries fs"
    with res show "map_of p' k = map_of p k"
      by simp
  qed
qed


lemma extract_decorators_snd:
  "ds_extract (decorators sch) data = Inr (processed, ds) \<Longrightarrow>
   snd (extract_decorators ds_extract decode sch data)
     = check_signed_fields decode (expect_fields sch) (ds_fields ds) processed"
  by (simp add: extract_decorators_def)

lemma load_extract_error:
  "snd (extract_decorators ds_extract decode sch data) = Inl e \<Longrightarrow>
   snd (load ds_extract decode load_fields base_init ds_bool fresh m sch data) = Inl e"
  by (cases "extract_decorators ds_extract decode sch data") (simp add: load_def)

lemma stored_sig_None_entries:
  assumes "distinct (map fst (ds_fields ds))"
  shows "stored_sig ds n = None \<longleftrightarrow> n \<notin> fst ` sig_entries (ds_fields ds)"
proof
  assume "stored_sig ds n = None"
  then have "\<And>sg. (n, sg) \<notin> sig_entries (ds_fields ds)"
    using stored_sig_entries [OF assms, of n] by simp
  then show "n \<notin> fst ` sig_entries (ds_fields ds)"
    by force
next
  assume a: "n \<notin> fst ` sig_entries (ds_fields ds)"
  show "stored_sig ds n = None"
  proof (cases "stored_sig ds n")
    case None
    then show ?thesis .
  next
    case (Some sg)
    then have "(n, sg) \<in> sig_entries (ds_fields ds)"
      using stored_sig_entries [OF assms, of n sg] by simp
    with a show ?thesis by force
  qed
qed

text \<open>
  C1. Once the decorator set has extracted the decorators from the wire data, the
  \<open>pre_load\<close> hook raises a validation error exactly when a field of the policy has no
  stored signature, or a field of the policy has both a plain value and a stored
  signature, or a signature is stored for a field outside the policy; each error it
  raises names such a field, and the load fails with it. When the hook returns, every
  field of the policy has in the plain map the value decoded from its stored signature,
  and the other plain items are as extracted. The field names of the decorator set are
  distinct, as the keys of a dictionary are.
\<close>

theorem extract_decorators_faults:
  assumes ext: "ds_extract (decorators sch) data = Inr (processed, ds)"
    and dist: "distinct (map fst (ds_fields ds))"
  shows
    "((\<exists>e. snd (extract_decorators ds_extract decode sch data) = Inl e) \<longleftrightarrow>
        (\<exists>f \<in> set (expect_fields sch). stored_sig ds f = None)
      \<or> (\<exists>f \<in> set (expect_fields sch). f \<in> set (keys processed) \<and> stored_sig ds f \<noteq> None)
      \<or> (\<exists>f. stored_sig ds f \<noteq> None \<and> f \<notin> set (expect_fields sch)))
   \<and> (\<forall>e. snd (extract_decorators ds_extract decode sch data) = Inl e \<longrightarrow>
        (\<exists>f. f \<in> set (expect_fields sch) \<and> stored_sig ds f = None
             \<and> e = expected_signature f)
      \<or> (\<exists>f. f \<in> set (expect_fields sch) \<and> f \<in> set (keys processed)
             \<and> stored_sig ds f \<noteq> None \<and> e = signature_and_value f)
      \<or> (\<exists>f. stored_sig ds f \<noteq> None \<and> f \<notin> set (expect_fields sch)
             \<and> e = unexpected_signature f))
   \<and> (\<forall>processed'. snd (extract_decorators ds_extract decode sch data) = Inr processed' \<longrightarrow>
        (\<forall>f \<in> set (expect_fields sch).
           \<exists>sg. stored_sig ds f = Some sg \<and> map_of processed' f = Some (fst (decode sg)))
      \<and> (\<forall>k. k \<notin> set (expect_fields sch) \<longrightarrow> map_of processed' k = map_of processed k))
   \<and> (\<forall>e. snd (extract_decorators ds_extract decode sch data) = Inl e \<longrightarrow>
        snd (load ds_extract decode load_fields base_init ds_bool fresh m sch data) = Inl e)"
proof -
  let ?R = "snd (extract_decorators ds_extract decode sch data)"
  let ?expect = "expect_fields sch"
  let ?S = "sig_entries (ds_fields ds)"
  let ?cond = "(\<exists>f \<in> set ?expect. stored_sig ds f = None)
      \<or> (\<exists>f \<in> set ?expect. f \<in> set (keys processed) \<and> stored_sig ds f \<noteq> None)
      \<or> (\<exists>f. stored_sig ds f \<noteq> None \<and> f \<notin> set ?expect)"
  have R: "?R = check_signed_fields decode ?expect (ds_fields ds) processed"
    using ext by (rule extract_decorators_snd)
  have some: "stored_sig ds n = Some sg \<longleftrightarrow> (n, sg) \<in> ?S" for n sg
    by (rule stored_sig_entries [OF dist])
  have none: "stored_sig ds n = None \<longleftrightarrow> n \<notin> fst ` ?S" for n
    by (rule stored_sig_None_entries [OF dist])
  have errors: "(\<exists>f. f \<in> set ?expect \<and> stored_sig ds f = None \<and> e = expected_signature f)
      \<or> (\<exists>f. f \<in> set ?expect \<and> f \<in> set (keys processed)
             \<and> stored_sig ds f \<noteq> None \<and> e = signature_and_value f)
      \<or> (\<exists>f. stored_sig ds f \<noteq> None \<and> f \<notin> set ?expect \<and> e = unexpected_signature f)"
    if "?R = Inl e" for e
  proof -
    from that R have "check_signed_fields decode ?expect (ds_fields ds) processed = Inl e"
      by simp
    from check_signed_fields_Inl [OF dist this]
    consider (unexpected) n sg where "(n, sg) \<in> ?S" "n \<notin> set ?expect" "e = unexpected_signature n"
      | (conflict) n sg where "(n, sg) \<in> ?S" "n \<in> set ?expect" "n \<in> set (keys processed)"
          "e = signature_and_value n"
      | (missing) n where "n \<in> set ?expect" "n \<notin> fst ` ?S" "e = expected_signature n"
      by auto
    then show ?thesis
    proof cases
      case unexpected
      from unexpected(1) have "stored_sig ds n \<noteq> None"
        using some [of n sg] by simp
      with unexpected show ?thesis by auto
    next
      case conflict
      from conflict(1) have "stored_sig ds n \<noteq> None"
        using some [of n sg] by simp
      with conflict show ?thesis by auto
    next
      case missing
      from missing(2) have "stored_sig ds n = None"
        using none [of n] by simp
      with missing show ?thesis by auto
    qed
  qed
  have loaded: "(\<forall>f \<in> set ?expect.
           \<exists>sg. stored_sig ds f = Some sg \<and> map_of processed' f = Some (fst (decode sg)))
      \<and> (\<forall>k. k \<notin> set ?expect \<longrightarrow> map_of processed' k = map_of processed k)
      \<and> \<not> ?cond"
    if "?R = Inr processed'" for processed'
  proof -
    from that R have "check_signed_fields decode ?expect (ds_fields ds) processed = Inr processed'"
      by simp
    note ok = check_signed_fields_Inr [OF dist this]
    have a: "\<exists>sg. stored_sig ds f = Some sg \<and> map_of processed' f = Some (fst (decode sg))"
      if "f \<in> set ?expect" for f
    proof -
      from that ok obtain sg where "(f, sg) \<in> ?S"
        by force
      with ok some [of f sg] show ?thesis
        by auto
    qed
    have b: "map_of processed' k = map_of processed k" if "k \<notin> set ?expect" for k
    proof -
      from that ok have "k \<notin> fst ` ?S"
        by force
      with ok show ?thesis by simp
    qed
    have c1: "stored_sig ds f \<noteq> None" if "f \<in> set ?expect" for f
      using a [OF that] by auto
    have c2: "f \<in> set ?expect \<and> f \<notin> set (keys processed)" if "stored_sig ds f \<noteq> None" for f
    proof -
      from that obtain sg where "stored_sig ds f = Some sg"
        by auto
      then have "(f, sg) \<in> ?S"
        using some [of f sg] by simp
      with ok show ?thesis by simp
    qed
    from c1 c2 have nc: "\<not> ?cond"
      by blast
    from a have A: "\<forall>f \<in> set ?expect.
        \<exists>sg. stored_sig ds f = Some sg \<and> map_of processed' f = Some (fst (decode sg))"
      by blast
    from b have B: "\<forall>k. k \<notin> set ?expect \<longrightarrow> map_of processed' k = map_of processed k"
      by blast
    show ?thesis
      by (rule conjI [OF A conjI [OF B nc]])
  qed
  have iff: "(\<exists>e. ?R = Inl e) \<longleftrightarrow> ?cond"
  proof (cases ?R)
    case (Inl e)
    from errors [OF Inl] have c: ?cond
      by auto
    from Inl have "\<exists>e. ?R = Inl e"
      by simp
    with c show ?thesis
      by (intro iffI)
  next
    case (Inr processed')
    from loaded [OF Inr] have nc: "\<not> ?cond"
      by (elim conjE)
    from Inr have "\<not> (\<exists>e. ?R = Inl e)"
      by simp
    then show ?thesis
    proof (intro iffI)
      assume ne: "\<not> (\<exists>e. ?R = Inl e)" and ex: "\<exists>e. ?R = Inl e"
      from ne ex show ?cond by (rule notE)
    next
      assume ?cond
      with nc show "\<exists>e. ?R = Inl e" by (rule notE)
    qed
  qed
  show ?thesis
  proof (intro conjI allI impI)
    show "(\<exists>e. ?R = Inl e) \<longleftrightarrow> ?cond"
      by (rule iff)
  next
    fix e assume "?R = Inl e"
    then show "(\<exists>f. f \<in> set ?expect \<and> stored_sig ds f = None \<and> e = expected_signature f)
      \<or> (\<exists>f. f \<in> set ?expect \<and> f \<in> set (keys processed)
             \<and> stored_sig ds f \<noteq> None \<and> e = signature_and_value f)
      \<or> (\<exists>f. stored_sig ds f \<noteq> None \<and> f \<notin> set ?expect \<and> e = unexpected_signature f)"
      by (rule errors)
  next
    fix processed' assume "?R = Inr processed'"
    from loaded [OF this]
    show "\<forall>f \<in> set ?expect.
           \<exists>sg. stored_sig ds f = Some sg \<and> map_of processed' f = Some (fst (decode sg))"
      by (elim conjE)
  next
    fix processed' k assume "?R = Inr processed'" and "k \<notin> set ?expect"
    with loaded [of processed'] show "map_of processed' k = map_of processed k"
      by blast
  next
    fix e assume "?R = Inl e"
    then show "snd (load ds_extract decode load_fields base_init ds_bool fresh m sch data) = Inl e"
      by (rule load_extract_error)
  qed
qed


theorem extract_decorators_faults_witness:
  "ds_extract_decorators (decorators signed_schema) wire_signed
     = Inr ([(''@type'', JStr ''test/1.0/ping''), (''@id'', JStr ''msg-1'')],
            message_decorators signed_ping)
   \<and> distinct (map fst (ds_fields (message_decorators signed_ping)))
   \<and> snd (extract_decorators ds_extract_decorators sample_decode signed_schema wire_signed)
       = Inr [(''@type'', JStr ''test/1.0/ping''), (''@id'', JStr ''msg-1''),
              (''value'', JStr ''payload'')]
   \<and> (\<exists>sg. stored_sig (message_decorators signed_ping) ''value'' = Some sg
         \<and> map_of [(''@type'', JStr ''test/1.0/ping''), (''@id'', JStr ''msg-1''),
                    (''value'', JStr ''payload'')] ''value'' = Some (fst (sample_decode sg)))
   \<and> ds_extract_decorators (decorators signed_schema) wire_plain = Inr (wire_plain, DecoratorSet)
   \<and> distinct (map fst (ds_fields DecoratorSet))
   \<and> snd (extract_decorators ds_extract_decorators sample_decode signed_schema wire_plain)
       = Inl (ValidationError ''Expected field signature: value'')
   \<and> ds_extract_decorators (decorators signed_schema) wire_both
       = Inr (wire_plain, message_decorators signed_ping)
   \<and> snd (extract_decorators ds_extract_decorators sample_decode signed_schema wire_both)
       = Inl (ValidationError ''Message defines both field signature and value: value'')
   \<and> ds_extract_decorators (decorators unsigned_schema) wire_signed
     = Inr ([(''@type'', JStr ''test/1.0/ping''), (''@id'', JStr ''msg-1'')],
            message_decorators signed_ping)
   \<and> snd (extract_decorators ds_extract_decorators sample_decode unsigned_schema wire_signed)
       = Inl (ValidationError ''Encountered unexpected field signature: value'')
   \<and> snd (load ds_extract_decorators sample_decode sample_load_fields sample_base_init
             sample_ds_bool ''uuid-1'' Ping_Meta unsigned_schema wire_signed)
       = Inl (ValidationError ''Encountered unexpected field signature: value'')"
proof -
  have x1: "ds_extract_decorators (decorators signed_schema) wire_signed
     = Inr ([(''@type'', JStr ''test/1.0/ping''), (''@id'', JStr ''msg-1'')],
            message_decorators signed_ping)"
    by (simp add: sample_defs msg_defs codec_defs)
  have x2: "ds_extract_decorators (decorators signed_schema) wire_plain
     = Inr (wire_plain, DecoratorSet)"
    by (simp add: sample_defs msg_defs codec_defs)
  have x3: "ds_extract_decorators (decorators signed_schema) wire_both
       = Inr (wire_plain, message_decorators signed_ping)"
    by (simp add: sample_defs msg_defs codec_defs)
  have x4: "ds_extract_decorators (decorators unsigned_schema) wire_signed
     = Inr ([(''@type'', JStr ''test/1.0/ping''), (''@id'', JStr ''msg-1'')],
            message_decorators signed_ping)"
    by (simp add: sample_defs msg_defs codec_defs)
  have d1: "distinct (map fst (ds_fields (message_decorators signed_ping)))"
    by (simp add: sample_defs msg_defs)
  have d2: "distinct (map fst (ds_fields DecoratorSet))"
    by (simp add: DecoratorSet_def)
  have r1: "snd (extract_decorators ds_extract_decorators sample_decode signed_schema wire_signed)
       = Inr [(''@type'', JStr ''test/1.0/ping''), (''@id'', JStr ''msg-1''),
              (''value'', JStr ''payload'')]"
    unfolding extract_decorators_def x1
    by (simp add: sample_defs msg_defs load_defs)
  have r2: "snd (extract_decorators ds_extract_decorators sample_decode signed_schema wire_plain)
       = Inl (ValidationError ''Expected field signature: value'')"
    unfolding extract_decorators_def x2
    by (simp add: sample_defs msg_defs load_defs)
  have r3: "snd (extract_decorators ds_extract_decorators sample_decode signed_schema wire_both)
       = Inl (ValidationError ''Message defines both field signature and value: value'')"
    unfolding extract_decorators_def x3
    by (simp add: sample_defs msg_defs load_defs)
  have r4: "snd (extract_decorators ds_extract_decorators sample_decode unsigned_schema wire_signed)
       = Inl (ValidationError ''Encountered unexpected field signature: value'')"
    unfolding extract_decorators_def x4
    by (simp add: sample_defs msg_defs load_defs)
  have e: "''value'' \<in> set (expect_fields signed_schema)"
    by (simp add: expect_fields_def signed_schema_def)
  note t1 = extract_decorators_faults [where ds_extract = ds_extract_decorators
      and sch = signed_schema and data = wire_signed and decode = sample_decode
      and load_fields = sample_load_fields and base_init = sample_base_init
      and ds_bool = sample_ds_bool and fresh = "''uuid-1''" and m = Ping_Meta, OF x1 d1]
  note t4 = extract_decorators_faults [where ds_extract = ds_extract_decorators
      and sch = unsigned_schema and data = wire_signed and decode = sample_decode
      and load_fields = sample_load_fields and base_init = sample_base_init
      and ds_bool = sample_ds_bool and fresh = "''uuid-1''" and m = Ping_Meta, OF x4 d1]
  have v: "\<exists>sg. stored_sig (message_decorators signed_ping) ''value'' = Some sg
         \<and> map_of [(''@type'', JStr ''test/1.0/ping''), (''@id'', JStr ''msg-1''),
                    (''value'', JStr ''payload'')] ''value'' = Some (fst (sample_decode sg))"
    using t1 [THEN conjunct2, THEN conjunct2, THEN conjunct1, rule_format, OF r1,
        THEN conjunct1, rule_format, OF e] .
  have l: "snd (load ds_extract_decorators sample_decode sample_load_fields sample_base_init
             sample_ds_bool ''uuid-1'' Ping_Meta unsigned_schema wire_signed)
       = Inl (ValidationError ''Encountered unexpected field signature: value'')"
    using t4 [THEN conjunct2, THEN conjunct2, THEN conjunct2, rule_format, OF r4] .
  show ?thesis
    by (intro conjI x1 x2 x3 x4 d1 d2 r1 r2 r3 r4 v l)
qed


section \<open>The order of the keys of a dumped message\<close>

lemma keys_Nil: "keys [] = []"
  by (simp add: keys_def)

lemma keys_Cons: "keys ((k, v) # d) = k # keys d"
  by (simp add: keys_def)

lemma keys_delete: "keys (AList.delete k d) = removeAll k (keys d)"
  by (simp add: keys_def delete_keys)

lemma keys_dict_update:
  "distinct (keys e) \<Longrightarrow>
   keys (dict_update d e) = keys d @ filter (\<lambda>k. k \<notin> set (keys d)) (keys e)"
proof (induction e arbitrary: d)
  case Nil
  then show ?case by (simp add: keys_Nil)
next
  case (Cons item e)
  obtain k v where item: "item = (k, v)"
    by (cases item)
  from Cons.prems item have k: "k \<notin> set (keys e)" and d: "distinct (keys e)"
    by (simp_all add: keys_Cons)
  have same: "filter (\<lambda>x. x \<notin> set (keys (AList.update k v d))) (keys e)
                = filter (\<lambda>x. x \<notin> set (keys d)) (keys e)"
    using k by (intro filter_cong) (auto simp: keys_update)
  show ?case
    unfolding item dict_update.simps Cons.IH [OF d] same
    using k by (simp add: keys_update keys_Cons)
qed

lemma set_keys_dict_update:
  "set (keys (dict_update d e)) = set (keys d) \<union> set (keys e)"
proof (induction e arbitrary: d)
  case Nil
  then show ?case by (simp add: keys_Nil)
next
  case (Cons item e)
  obtain k v where item: "item = (k, v)"
    by (cases item)
  show ?case
    unfolding item dict_update.simps Cons.IH
    by (auto simp: keys_update keys_Cons)
qed

lemma pop_keys_keys:
  "distinct ks \<Longrightarrow> set ks \<inter> set (keys result) = {} \<Longrightarrow>
   keys (fst (pop_keys ks result data)) = keys result @ filter (\<lambda>k. k \<in> set (keys data)) ks
   \<and> keys (snd (pop_keys ks result data)) = filter (\<lambda>k. k \<notin> set ks) (keys data)"
proof (induction ks arbitrary: result data)
  case Nil
  then show ?case by simp
next
  case (Cons key ks)
  from Cons.prems have d: "distinct ks" and key: "key \<notin> set ks" "key \<notin> set (keys result)"
    and disj: "set ks \<inter> set (keys result) = {}"
    by auto
  show ?case
  proof (cases "map_of data key")
    case None
    then have notin: "key \<notin> set (keys data)"
      by (simp add: map_of_eq_None_iff keys_def)
    then have "filter (\<lambda>k. k \<notin> set (key # ks)) (keys data) = filter (\<lambda>k. k \<notin> set ks) (keys data)"
      by (intro filter_cong) auto
    with None notin Cons.IH [OF d disj, of data] show ?thesis
      by simp
  next
    case (Some v)
    then have isin: "key \<in> set (keys data)"
      by (auto simp: keys_def dest: map_of_SomeD intro: rev_image_eqI)
    have disj': "set ks \<inter> set (keys (AList.update key v result)) = {}"
      using disj key by (auto simp: keys_update)
    have f1: "filter (\<lambda>k. k \<in> set (keys (AList.delete key data))) ks
                = filter (\<lambda>k. k \<in> set (keys data)) ks"
      using key by (intro filter_cong) (auto simp: keys_delete)
    have f2: "filter (\<lambda>k. k \<notin> set ks) (keys (AList.delete key data))
                = filter (\<lambda>k. k \<notin> set (key # ks)) (keys data)"
      by (simp add: keys_delete removeAll_filter_not_eq conj_commute eq_commute)
    from Some isin key Cons.IH [OF d disj', of "AList.delete key data"] f1 f2 show ?thesis
      by (simp add: keys_update)
  qed
qed

lemma set_pop_keys:
  "set (keys (fst (pop_keys ks result data))) \<union> set (keys (snd (pop_keys ks result data)))
     = set (keys result) \<union> set (keys data)"
proof (induction ks arbitrary: result data)
  case Nil
  then show ?case by simp
next
  case (Cons key ks)
  show ?case
  proof (cases "map_of data key")
    case None
    with Cons.IH [of result data] show ?thesis by simp
  next
    case (Some v)
    then have "key \<in> set (keys data)"
      by (auto simp: keys_def dest: map_of_SomeD intro: rev_image_eqI)
    with Some Cons.IH [of "AList.update key v result" "AList.delete key data"] show ?thesis
      by (auto simp: keys_update keys_delete)
  qed
qed


lemma move_signatures_distinct:
  "distinct (keys sigs) \<Longrightarrow> distinct (keys (snd (move_signatures serialize fs sigs)))"
proof (induction fs arbitrary: sigs)
  case Nil
  then show ?case by simp
next
  case (Cons entry fs)
  obtain name fd where entry: "entry = (name, fd)"
    by (cases entry)
  have "distinct (keys (case fd_sig fd of None \<Rightarrow> sigs
                        | Some sg \<Rightarrow> AList.update name (serialize sg) sigs))"
    using Cons.prems by (cases "fd_sig fd") (simp_all add: keys_update)
  from Cons.IH [OF this] show ?case
    unfolding entry move_signatures_snd_Cons .
qed

lemma move_signatures_keys:
  "distinct (map fst fs) \<Longrightarrow> set (keys sigs) \<inter> set (map fst fs) = {} \<Longrightarrow>
   keys (snd (move_signatures serialize fs sigs))
     = keys sigs @ map fst (filter (\<lambda>entry. fd_sig (snd entry) \<noteq> None) fs)"
proof (induction fs arbitrary: sigs)
  case Nil
  then show ?case by simp
next
  case (Cons entry fs)
  obtain name fd where entry: "entry = (name, fd)"
    by (cases entry)
  from Cons.prems entry have d: "distinct (map fst fs)" and n: "name \<notin> set (map fst fs)"
    and s: "set (keys sigs) \<inter> set (map fst fs) = {}" and ns: "name \<notin> set (keys sigs)"
    by auto
  show ?case
  proof (cases "fd_sig fd")
    case None
    show ?thesis
      unfolding entry move_signatures_snd_Cons
      using Cons.IH [OF d s] None by simp
  next
    case (Some sg)
    have "set (keys (AList.update name (serialize sg) sigs)) \<inter> set (map fst fs) = {}"
      using s n by (auto simp: keys_update)
    from Cons.IH [OF d this] show ?thesis
      unfolding entry move_signatures_snd_Cons
      using Some ns by (simp add: keys_update)
  qed
qed

lemma plain_key_sig: "\<not> plain_key (f @ ''~sig'')"
  by (simp add: plain_key_def)

lemma replace_signatures_loop_keys:
  "distinct (keys sigs) \<Longrightarrow> \<forall>f \<in> set (keys sigs). plain_key f \<Longrightarrow>
   \<forall>f \<in> set (keys sigs). f @ ''~sig'' \<notin> set (keys data) \<Longrightarrow>
   replace_signatures_loop sigs data = Inr out \<Longrightarrow>
   keys out = filter (\<lambda>k. k \<notin> set (keys sigs)) (keys data) @ map (\<lambda>f. f @ ''~sig'') (keys sigs)"
proof (induction sigs arbitrary: data)
  case Nil
  then show ?case by (simp add: keys_Nil)
next
  case (Cons item sigs)
  obtain f sg where item: "item = (f, sg)"
    by (cases item)
  from Cons.prems(1) item have d: "distinct (keys sigs)" and f: "f \<notin> set (keys sigs)"
    by (simp_all add: keys_Cons)
  from Cons.prems(2) item have p: "\<forall>g \<in> set (keys sigs). plain_key g" and pf: "plain_key f"
    by (simp_all add: keys_Cons)
  from Cons.prems(3) item have fs: "f @ ''~sig'' \<notin> set (keys data)"
    and gs: "\<forall>g \<in> set (keys sigs). g @ ''~sig'' \<notin> set (keys data)"
    by (simp_all add: keys_Cons)
  let ?data = "AList.update (f @ ''~sig'') sg (AList.delete f data)"
  from Cons.prems(4) item have isin: "f \<in> set (keys data)"
    and r: "replace_signatures_loop sigs ?data = Inr out"
    by (auto simp: del_item_def split: if_splits)
  have k: "keys ?data = removeAll f (keys data) @ [f @ ''~sig'']"
    using fs by (simp add: keys_update keys_delete)
  have gs': "\<forall>g \<in> set (keys sigs). g @ ''~sig'' \<notin> set (keys ?data)"
    using gs f by (auto simp: k)
  have notsig: "f @ ''~sig'' \<notin> set (keys sigs)"
    using p plain_key_sig by blast
  have "keys out = filter (\<lambda>k. k \<notin> set (keys sigs)) (keys ?data)
                     @ map (\<lambda>f. f @ ''~sig'') (keys sigs)"
    by (rule Cons.IH [OF d p gs' r])
  also have "filter (\<lambda>k. k \<notin> set (keys sigs)) (keys ?data)
               = filter (\<lambda>k. k \<notin> set (keys (item # sigs))) (keys data) @ [f @ ''~sig'']"
    using notsig
    by (simp add: k item keys_Cons removeAll_filter_not_eq conj_commute eq_commute)
  finally show ?case
    by (simp add: item keys_Cons)
qed

lemma replace_signatures_loop_missing:
  "distinct (keys sigs) \<Longrightarrow> \<forall>g \<in> set (keys sigs). plain_key g \<Longrightarrow>
   f \<in> set (keys sigs) \<Longrightarrow> f \<notin> set (keys data) \<Longrightarrow>
   \<exists>g \<in> set (keys sigs). g \<notin> set (keys data) \<and> replace_signatures_loop sigs data = Inl (KeyError g)"
proof (induction sigs arbitrary: data)
  case Nil
  then show ?case by (simp add: keys_Nil)
next
  case (Cons item sigs)
  obtain h sg where item: "item = (h, sg)"
    by (cases item)
  from Cons.prems(1) item have d: "distinct (keys sigs)" and h: "h \<notin> set (keys sigs)"
    by (simp_all add: keys_Cons)
  from Cons.prems(2) item have p: "\<forall>g \<in> set (keys sigs). plain_key g"
    by (simp add: keys_Cons)
  show ?case
  proof (cases "h \<in> set (keys data)")
    case False
    then show ?thesis
      by (simp add: item keys_Cons del_item_def)
  next
    case True
    let ?data = "AList.update (h @ ''~sig'') sg (AList.delete h data)"
    from True Cons.prems(3,4) item have fin: "f \<in> set (keys sigs)"
      by (auto simp: keys_Cons)
    from Cons.prems(2,3) have "plain_key f"
      by blast
    then have "f \<noteq> h @ ''~sig''"
      using plain_key_sig by blast
    with Cons.prems(4) have "f \<notin> set (keys ?data)"
      by (auto simp: keys_update keys_delete)
    from Cons.IH [OF d p fin this] obtain g where
      g: "g \<in> set (keys sigs)" "g \<notin> set (keys ?data)"
         "replace_signatures_loop sigs ?data = Inl (KeyError g)"
      by blast
    from g(1) h have "g \<noteq> h"
      by blast
    with g(2) have "g \<notin> set (keys data)"
      by (auto simp: keys_update keys_delete split: if_splits)
    with g True show ?thesis
      by (auto simp: item keys_Cons del_item_def)
  qed
qed


lemma check_dump_decorators_state:
  "signatures (fst (check_dump_decorators to_dict serialize sch obj))
     = snd (move_signatures serialize (ds_fields (message_decorators obj)) [])"
  "decorators_dict (fst (check_dump_decorators to_dict serialize sch obj))
     = Some (to_dict ((message_decorators obj)
               \<lparr>ds_fields := fst (move_signatures serialize (ds_fields (message_decorators obj)) [])\<rparr>))"
  "smeta (fst (check_dump_decorators to_dict serialize sch obj)) = smeta sch"
  "snd (check_dump_decorators to_dict serialize sch obj)
     = (case check_signed (expect_fields sch)
               (snd (move_signatures serialize (ds_fields (message_decorators obj)) []))
        of Some e \<Rightarrow> Inl e | None \<Rightarrow> Inr obj)"
  by (simp_all add: check_dump_decorators_def get_decorators_def Let_def case_prod_beta
        expect_fields_def split: option.splits)

lemma signatures_keys_signed_names:
  "distinct (map fst (ds_fields (message_decorators obj))) \<Longrightarrow>
   keys (signatures (fst (check_dump_decorators to_dict serialize sch obj)))
     = signed_names (message_decorators obj)"
  using move_signatures_keys [of "ds_fields (message_decorators obj)" "[]" serialize]
  by (simp add: check_dump_decorators_state signed_names_def keys_Nil)

lemma signatures_keys_set:
  "set (keys (signatures (fst (check_dump_decorators to_dict serialize sch obj))))
     = set (signed_names (message_decorators obj))"
  using move_signatures_key_set [of serialize "ds_fields (message_decorators obj)" "[]"]
  by (simp add: check_dump_decorators_state signed_names_def keys_Nil)

lemma signatures_keys_distinct:
  "distinct (keys (signatures (fst (check_dump_decorators to_dict serialize sch obj))))"
  using move_signatures_distinct [of "[]" serialize "ds_fields (message_decorators obj)"]
  by (simp add: check_dump_decorators_state keys_Nil)

text \<open>The map composed by \<open>dump_decorators\<close>, before the signatures are replaced.\<close>

lemma dump_success:
  assumes "dump_fields obj = Inr data"
    and "decorators_dict (fst (check_dump_decorators to_dict serialize sch obj)) = Some deco"
    and "snd (check_dump_decorators to_dict serialize sch obj) = Inr obj'"
  shows "snd (dump to_dict serialize dump_fields sch obj)
           = replace_signatures_loop
               (signatures (fst (check_dump_decorators to_dict serialize sch obj)))
               (dict_update (dict_update (fst (pop_keys [''@type'', ''@id''] [] data)) deco)
                  (snd (pop_keys [''@type'', ''@id''] [] data)))"
proof -
  obtain sch' r where c: "check_dump_decorators to_dict serialize sch obj = (sch', r)"
    by (cases "check_dump_decorators to_dict serialize sch obj")
  from assms(3) c have r: "r = Inr obj'"
    by simp
  from assms(3) have "obj' = obj"
    by (simp add: check_dump_decorators_state split: option.splits)
  with assms(1,2) c r show ?thesis
    by (simp add: dump_def dump_decorators_def replace_signatures_def case_prod_beta)
qed

lemma dump_pre_dump_error:
  "snd (check_dump_decorators to_dict serialize sch obj) = Inl e \<Longrightarrow>
   snd (dump to_dict serialize dump_fields sch obj) = Inl e"
  by (cases "check_dump_decorators to_dict serialize sch obj") (simp add: dump_def)

lemma composed_keys:
  assumes d2: "distinct (keys data)" and d3: "distinct (keys deco)"
    and w1: "\<forall>k \<in> set (keys deco). decorator_key k"
    and w2: "\<forall>k \<in> set (keys data). plain_key k"
  shows "keys (dict_update (dict_update (fst (pop_keys [''@type'', ''@id''] [] data)) deco)
                 (snd (pop_keys [''@type'', ''@id''] [] data)))
           = filter (\<lambda>k. k \<in> set (keys data)) [''@type'', ''@id''] @ keys deco
             @ filter (\<lambda>k. k \<notin> set [''@type'', ''@id'']) (keys data)"
proof -
  define ks where "ks = [''@type'', ''@id'']"
  define result where "result = fst (pop_keys ks [] data)"
  define rest where "rest = snd (pop_keys ks [] data)"
  have "distinct ks"
    by (simp add: ks_def)
  then have pk: "keys result = filter (\<lambda>k. k \<in> set (keys data)) ks"
    "keys rest = filter (\<lambda>k. k \<notin> set ks) (keys data)"
    unfolding result_def rest_def using pop_keys_keys [of ks "[]" data]
    by (simp_all add: keys_Nil)
  have plain: "\<forall>k \<in> set ks. plain_key k"
    by (simp add: plain_key_def ks_def)
  have sep: "\<not> (plain_key k \<and> decorator_key k)" for k
    by (simp add: plain_key_def decorator_key_def)
  have a: "filter (\<lambda>k. k \<notin> set (keys result)) (keys deco) = keys deco"
    unfolding filter_id_conv pk using w1 plain sep by auto
  have k1: "keys (dict_update result deco) = keys result @ keys deco"
    using keys_dict_update [OF d3, of result] a by simp
  have drest: "distinct (keys rest)"
    using d2 by (simp add: pk)
  have b: "filter (\<lambda>k. k \<notin> set (keys (dict_update result deco))) (keys rest) = keys rest"
    unfolding filter_id_conv k1 using w1 w2 sep by (auto simp: pk)
  have "keys (dict_update (dict_update result deco) rest)
          = filter (\<lambda>k. k \<in> set (keys data)) ks @ keys deco
            @ filter (\<lambda>k. k \<notin> set ks) (keys data)"
    using keys_dict_update [OF drest, of "dict_update result deco"] b k1 pk by simp
  then show ?thesis
    unfolding result_def rest_def ks_def .
qed



text \<open>
  C2. For a message that dumps successfully, the keys of the output are, in this order:
  \<open>@type\<close> and \<open>@id\<close> (each when the field schema serialized it), the decorator wire
  keys of the snapshot, the plain keys of the fields that carry no signature, and a key
  \<open><field>~sig\<close> for every field with a stored signature; and no field with a stored
  signature appears under its bare name. The dictionaries have distinct keys; the wire
  keys have their shape: a decorator key contains the marker \<open>~\<close>, a plain key and the
  name of a signed field do not, a signed field is neither \<open>@type\<close> nor \<open>@id\<close>, and the
  snapshot, whose signatures were removed, yields no \<open>~sig\<close> key for a signed field.
\<close>

theorem dump_key_order:
  assumes fields: "dump_fields obj = Inr data"
    and deco: "decorators_dict (fst (check_dump_decorators to_dict serialize sch obj)) = Some deco"
    and ok: "snd (dump to_dict serialize dump_fields sch obj) = Inr out"
    and d1: "distinct (map fst (ds_fields (message_decorators obj)))"
    and d2: "distinct (keys data)"
    and d3: "distinct (keys deco)"
    and w1: "\<forall>k \<in> set (keys deco). decorator_key k"
    and w2: "\<forall>k \<in> set (keys data). plain_key k"
    and w3: "\<forall>f \<in> set (signed_names (message_decorators obj)).
               plain_key f \<and> f \<notin> set [''@type'', ''@id'']"
    and w4: "\<forall>f \<in> set (signed_names (message_decorators obj)). f @ ''~sig'' \<notin> set (keys deco)"
  shows "keys out
           = filter (\<lambda>k. k \<in> set (keys data)) [''@type'', ''@id'']
             @ keys deco
             @ filter (\<lambda>k. k \<notin> set [''@type'', ''@id'']
                          \<and> k \<notin> set (signed_names (message_decorators obj))) (keys data)
             @ map (\<lambda>f. f @ ''~sig'') (signed_names (message_decorators obj))
         \<and> (\<forall>f \<in> set (signed_names (message_decorators obj)). f \<notin> set (keys out))"
proof -
  define ks where "ks = [''@type'', ''@id'']"
  define S where "S = signed_names (message_decorators obj)"
  define sigs where "sigs = signatures (fst (check_dump_decorators to_dict serialize sch obj))"
  define composed where
    "composed = dict_update (dict_update (fst (pop_keys ks [] data)) deco)
                  (snd (pop_keys ks [] data))"
  have sep: "\<not> (plain_key k \<and> decorator_key k)" for k
    by (simp add: plain_key_def decorator_key_def)
  have sigkey: "decorator_key (f @ ''~sig'')" for f
    by (simp add: decorator_key_def)
  have plain_ks: "\<forall>k \<in> set ks. plain_key k"
    by (simp add: plain_key_def ks_def)
  have S_plain: "\<forall>f \<in> set S. plain_key f" and S_ks: "\<forall>f \<in> set S. f \<notin> set ks"
    and S_deco: "\<forall>f \<in> set S. f @ ''~sig'' \<notin> set (keys deco)"
    using w3 w4 unfolding S_def ks_def by blast+
  have keys_sigs: "keys sigs = S"
    unfolding sigs_def S_def by (rule signatures_keys_signed_names [OF d1])
  have dist_sigs: "distinct (keys sigs)"
    unfolding sigs_def by (rule signatures_keys_distinct)
  obtain obj' where pre: "snd (check_dump_decorators to_dict serialize sch obj) = Inr obj'"
  proof (cases "snd (check_dump_decorators to_dict serialize sch obj)")
    case (Inl e)
    from dump_pre_dump_error [OF Inl, of dump_fields] ok show ?thesis
      by simp
  next
    case (Inr obj')
    with that show ?thesis .
  qed
  have loop: "replace_signatures_loop sigs composed = Inr out"
    using dump_success [where dump_fields = dump_fields, OF fields deco pre] ok
    unfolding sigs_def composed_def ks_def by simp
  have ck: "keys composed
              = filter (\<lambda>k. k \<in> set (keys data)) ks @ keys deco
                @ filter (\<lambda>k. k \<notin> set ks) (keys data)"
    unfolding composed_def ks_def by (rule composed_keys [OF d2 d3 w1 w2])
  have nks: "f @ ''~sig'' \<notin> set ks" for f
    using plain_ks sigkey [of f] sep by blast
  have ndata: "f @ ''~sig'' \<notin> set (keys data)" for f
    using w2 sigkey [of f] sep by blast
  have fresh: "\<forall>f \<in> set (keys sigs). f @ ''~sig'' \<notin> set (keys composed)"
    unfolding keys_sigs ck using S_deco nks ndata by auto
  have "keys out = filter (\<lambda>k. k \<notin> set (keys sigs)) (keys composed)
                     @ map (\<lambda>f. f @ ''~sig'') (keys sigs)"
    using dist_sigs S_plain fresh loop
    unfolding keys_sigs [symmetric] by (rule replace_signatures_loop_keys)
  then have out: "keys out = filter (\<lambda>k. k \<notin> set S) (keys composed) @ map (\<lambda>f. f @ ''~sig'') S"
    unfolding keys_sigs .
  have f1: "filter (\<lambda>k. k \<notin> set S) (filter (\<lambda>k. k \<in> set (keys data)) ks)
              = filter (\<lambda>k. k \<in> set (keys data)) ks"
    unfolding filter_id_conv using S_ks by auto
  have f2: "filter (\<lambda>k. k \<notin> set S) (keys deco) = keys deco"
    unfolding filter_id_conv using S_plain w1 sep by auto
  have f3: "filter (\<lambda>k. k \<notin> set S) (filter (\<lambda>k. k \<notin> set ks) (keys data))
              = filter (\<lambda>k. k \<notin> set ks \<and> k \<notin> set S) (keys data)"
    by (simp add: conj_commute)
  have order: "keys out = filter (\<lambda>k. k \<in> set (keys data)) ks @ keys deco
                 @ filter (\<lambda>k. k \<notin> set ks \<and> k \<notin> set S) (keys data)
                 @ map (\<lambda>f. f @ ''~sig'') S"
    unfolding out ck filter_append f1 f2 f3 by simp
  have nosig: "f \<noteq> g @ ''~sig''" if "f \<in> set S" for f g
    using that S_plain sigkey [of g] sep by blast
  have gone: "\<forall>f \<in> set S. f \<notin> set (keys out)"
    unfolding out using nosig by auto
  from order gone show ?thesis
    unfolding S_def ks_def by (rule conjI)
qed



theorem dump_key_order_witness:
  "sample_dump_fields full_ping
     = Inr [(''@type'', JStr ''test/1.0/ping''), (''@id'', JStr ''msg-1''),
            (''value'', JStr ''hello''), (''note'', JStr ''hi'')]
   \<and> decorators_dict (fst (check_dump_decorators ds_to_dict sig_serialize signed_schema full_ping))
       = Some [(''~thread'', thread_serialize \<lparr>thid = Some ''T'', pthid = Some ''P''\<rparr>)]
   \<and> snd (dump ds_to_dict sig_serialize sample_dump_fields signed_schema full_ping)
       = Inr [(''@type'', JStr ''test/1.0/ping''), (''@id'', JStr ''msg-1''),
              (''~thread'', thread_serialize \<lparr>thid = Some ''T'', pthid = Some ''P''\<rparr>),
              (''note'', JStr ''hi''), (''value~sig'', sig_serialize good_sig)]
   \<and> signed_names (message_decorators full_ping) = [''value'']
   \<and> distinct (map fst (ds_fields (message_decorators full_ping)))
   \<and> plain_key ''value'' \<and> plain_key ''note'' \<and> plain_key ''@type'' \<and> plain_key ''@id''
   \<and> decorator_key ''~thread''
   \<and> keys [(''@type'', JStr ''test/1.0/ping''), (''@id'', JStr ''msg-1''),
              (''~thread'', thread_serialize \<lparr>thid = Some ''T'', pthid = Some ''P''\<rparr>),
              (''note'', JStr ''hi''), (''value~sig'', sig_serialize good_sig)]
       = [''@type'', ''@id'', ''~thread'', ''note'', ''value~sig'']
   \<and> ''value'' \<notin> set (keys [(''@type'', JStr ''test/1.0/ping''), (''@id'', JStr ''msg-1''),
              (''~thread'', thread_serialize \<lparr>thid = Some ''T'', pthid = Some ''P''\<rparr>),
              (''note'', JStr ''hi''), (''value~sig'', sig_serialize good_sig)])"
proof -
  let ?data = "[(''@type'', JStr ''test/1.0/ping''), (''@id'', JStr ''msg-1''),
            (''value'', JStr ''hello''), (''note'', JStr ''hi'')]"
  let ?deco = "[(''~thread'', thread_serialize \<lparr>thid = Some ''T'', pthid = Some ''P''\<rparr>)]"
  let ?out = "[(''@type'', JStr ''test/1.0/ping''), (''@id'', JStr ''msg-1''),
              (''~thread'', thread_serialize \<lparr>thid = Some ''T'', pthid = Some ''P''\<rparr>),
              (''note'', JStr ''hi''), (''value~sig'', sig_serialize good_sig)]"
  have fields: "sample_dump_fields full_ping = Inr ?data"
    by (simp add: sample_defs msg_defs get_type_def get_id_def)
  have deco: "decorators_dict
                (fst (check_dump_decorators ds_to_dict sig_serialize signed_schema full_ping))
                = Some ?deco"
    by (simp add: sample_defs msg_defs dump_defs codec_defs)
  have ok: "snd (dump ds_to_dict sig_serialize sample_dump_fields signed_schema full_ping)
              = Inr ?out"
    by (simp add: sample_defs msg_defs dump_defs codec_defs keys_def)
  have S: "signed_names (message_decorators full_ping) = [''value'']"
    by (simp add: sample_defs msg_defs signed_names_def)
  have d1: "distinct (map fst (ds_fields (message_decorators full_ping)))"
    by (simp add: sample_defs msg_defs)
  have d2: "distinct (keys ?data)" and d3: "distinct (keys ?deco)"
    by (simp_all add: keys_def)
  have p: "plain_key ''value''" "plain_key ''note''" "plain_key ''@type''" "plain_key ''@id''"
    by (simp_all add: plain_key_def)
  have dk: "decorator_key ''~thread''"
    by (simp add: decorator_key_def)
  have w1: "\<forall>k \<in> set (keys ?deco). decorator_key k"
    using dk by (simp add: keys_def)
  have w2: "\<forall>k \<in> set (keys ?data). plain_key k"
    using p by (simp add: keys_def)
  have w3: "\<forall>f \<in> set (signed_names (message_decorators full_ping)).
               plain_key f \<and> f \<notin> set [''@type'', ''@id'']"
    using p by (simp add: S)
  have w4: "\<forall>f \<in> set (signed_names (message_decorators full_ping)).
               f @ ''~sig'' \<notin> set (keys ?deco)"
    by (simp add: S keys_def)
  note t = dump_key_order [where dump_fields = sample_dump_fields and to_dict = ds_to_dict
      and serialize = sig_serialize and sch = signed_schema,
      OF fields deco ok d1 d2 d3 w1 w2 w3 w4]
  have k: "keys ?out = [''@type'', ''@id'', ''~thread'', ''note'', ''value~sig'']"
    using t [THEN conjunct1] by (simp add: S keys_def)
  have g: "''value'' \<notin> set (keys ?out)"
    using t [THEN conjunct2] by (simp add: S)
  show ?thesis
    by (intro conjI fields deco ok S d1 p dk k g)
qed


section \<open>Signatures for fields without a dumped value\<close>

lemma composed_key_set:
  "set (keys (dict_update (dict_update (fst (pop_keys ks [] data)) deco) (snd (pop_keys ks [] data))))
     = set (keys data) \<union> set (keys deco)"
  using set_pop_keys [of ks "[]" data]
  by (auto simp: set_keys_dict_update keys_Nil)

text \<open>
  C10 (amended). \<open>replace_signatures\<close> deletes the plain key of every field with a
  stored signature without testing for it. So when the check of the policy passes and
  some field with a stored signature has no key in the map the field schema dumped, the
  dump raises \<open>KeyError\<close> for such a field; and whenever a dump succeeds, every field
  with a stored signature has a key in the dumped plain map. The names of signed fields
  are plain and the decorator keys of the snapshot carry the marker.
\<close>

theorem dump_missing_plain_value:
  assumes fields: "dump_fields obj = Inr data"
    and deco: "decorators_dict (fst (check_dump_decorators to_dict serialize sch obj)) = Some deco"
    and w1: "\<forall>k \<in> set (keys deco). decorator_key k"
    and w3: "\<forall>f \<in> set (signed_names (message_decorators obj)). plain_key f"
  shows "(set (expect_fields sch) \<subseteq> set (signed_names (message_decorators obj))
          \<and> (\<exists>f \<in> set (signed_names (message_decorators obj)). f \<notin> set (keys data)) \<longrightarrow>
            (\<exists>f \<in> set (signed_names (message_decorators obj)).
               f \<notin> set (keys data)
               \<and> snd (dump to_dict serialize dump_fields sch obj) = Inl (KeyError f)))
       \<and> (\<forall>out. snd (dump to_dict serialize dump_fields sch obj) = Inr out \<longrightarrow>
            (\<forall>f \<in> set (signed_names (message_decorators obj)). f \<in> set (keys data)))"
proof -
  define S where "S = signed_names (message_decorators obj)"
  define sigs where "sigs = signatures (fst (check_dump_decorators to_dict serialize sch obj))"
  define composed where
    "composed = dict_update (dict_update (fst (pop_keys [''@type'', ''@id''] [] data)) deco)
                  (snd (pop_keys [''@type'', ''@id''] [] data))"
  have sep: "\<not> (plain_key k \<and> decorator_key k)" for k
    by (simp add: plain_key_def decorator_key_def)
  have S_plain: "\<forall>f \<in> set S. plain_key f"
    using w3 unfolding S_def .
  have keys_sigs: "set (keys sigs) = set S"
    unfolding sigs_def S_def by (rule signatures_keys_set)
  have dist_sigs: "distinct (keys sigs)"
    unfolding sigs_def by (rule signatures_keys_distinct)
  have sigs_plain: "\<forall>g \<in> set (keys sigs). plain_key g"
    using S_plain keys_sigs by simp
  have ck: "set (keys composed) = set (keys data) \<union> set (keys deco)"
    unfolding composed_def by (rule composed_key_set)
  have pre: "snd (check_dump_decorators to_dict serialize sch obj)
               = (case check_signed (expect_fields sch) sigs of Some e \<Rightarrow> Inl e | None \<Rightarrow> Inr obj)"
    unfolding sigs_def by (simp add: check_dump_decorators_state)
  have raised: "\<exists>f \<in> set S. f \<notin> set (keys data)
                  \<and> snd (dump to_dict serialize dump_fields sch obj) = Inl (KeyError f)"
    if policy: "set (expect_fields sch) \<subseteq> set S" and missing: "\<exists>f \<in> set S. f \<notin> set (keys data)"
  proof -
    from policy have "check_signed (expect_fields sch) sigs = None"
      by (simp add: check_signed_None keys_sigs)
    with pre have "snd (check_dump_decorators to_dict serialize sch obj) = Inr obj"
      by simp
    from dump_success [where dump_fields = dump_fields, OF fields deco this]
    have d: "snd (dump to_dict serialize dump_fields sch obj)
               = replace_signatures_loop sigs composed"
      unfolding sigs_def composed_def .
    from missing obtain f where f: "f \<in> set S" "f \<notin> set (keys data)"
      by blast
    from f(1) S_plain have "plain_key f"
      by blast
    with w1 sep have "f \<notin> set (keys deco)"
      by blast
    with f(2) have "f \<notin> set (keys composed)"
      by (simp add: ck)
    from replace_signatures_loop_missing [OF dist_sigs sigs_plain _ this] f(1) keys_sigs
    obtain g where g: "g \<in> set (keys sigs)" "g \<notin> set (keys composed)"
      "replace_signatures_loop sigs composed = Inl (KeyError g)"
      by blast
    from g(1,2) have "g \<in> set S" "g \<notin> set (keys data)"
      by (simp_all add: keys_sigs ck)
    with g(3) d show ?thesis
      by auto
  qed
  have needed: "\<forall>f \<in> set S. f \<in> set (keys data)"
    if ok: "snd (dump to_dict serialize dump_fields sch obj) = Inr out" for out
  proof (rule ccontr)
    assume "\<not> (\<forall>f \<in> set S. f \<in> set (keys data))"
    then have missing: "\<exists>f \<in> set S. f \<notin> set (keys data)"
      by simp
    have policy: "set (expect_fields sch) \<subseteq> set S"
    proof (cases "check_signed (expect_fields sch) sigs")
      case None
      then show ?thesis
        by (simp add: check_signed_None keys_sigs)
    next
      case (Some e)
      with pre have "snd (check_dump_decorators to_dict serialize sch obj) = Inl e"
        by simp
      from dump_pre_dump_error [OF this, of dump_fields] ok show ?thesis
        by simp
    qed
    from raised [OF policy missing] ok show False
      by auto
  qed
  from raised needed show ?thesis
    unfolding S_def by blast
qed


theorem dump_missing_plain_value_witness:
  "sample_dump_fields orphan_ping
     = Inr [(''@type'', JStr ''test/1.0/ping''), (''@id'', JStr ''msg-1''),
            (''value'', JStr ''hello'')]
   \<and> decorators_dict (fst (check_dump_decorators ds_to_dict sig_serialize unsigned_schema
                          orphan_ping)) = Some []
   \<and> signed_names (message_decorators orphan_ping) = [''other'']
   \<and> plain_key ''other''
   \<and> expect_fields unsigned_schema = []
   \<and> ''other'' \<notin> set (keys [(''@type'', JStr ''test/1.0/ping''), (''@id'', JStr ''msg-1''),
                               (''value'', JStr ''hello'')])
   \<and> snd (dump ds_to_dict sig_serialize sample_dump_fields unsigned_schema orphan_ping)
       = Inl (KeyError ''other'')
   \<and> sample_dump_fields signed_ping
     = Inr [(''@type'', JStr ''test/1.0/ping''), (''@id'', JStr ''msg-1''),
            (''value'', JStr ''hello'')]
   \<and> decorators_dict (fst (check_dump_decorators ds_to_dict sig_serialize signed_schema
                          signed_ping)) = Some []
   \<and> signed_names (message_decorators signed_ping) = [''value'']
   \<and> plain_key ''value''
   \<and> snd (dump ds_to_dict sig_serialize sample_dump_fields signed_schema signed_ping)
       = Inr [(''@type'', JStr ''test/1.0/ping''), (''@id'', JStr ''msg-1''),
              (''value~sig'', sig_serialize good_sig)]
   \<and> ''value'' \<in> set (keys [(''@type'', JStr ''test/1.0/ping''), (''@id'', JStr ''msg-1''),
                             (''value'', JStr ''hello'')])"
proof -
  let ?data = "[(''@type'', JStr ''test/1.0/ping''), (''@id'', JStr ''msg-1''),
            (''value'', JStr ''hello'')]"
  have fields: "sample_dump_fields orphan_ping = Inr ?data"
    by (simp add: sample_defs msg_defs get_type_def get_id_def)
  have deco: "decorators_dict (fst (check_dump_decorators ds_to_dict sig_serialize unsigned_schema
                          orphan_ping)) = Some []"
    by (simp add: sample_defs msg_defs dump_defs codec_defs)
  have S: "signed_names (message_decorators orphan_ping) = [''other'']"
    by (simp add: sample_defs msg_defs signed_names_def)
  have p: "plain_key ''other''" "plain_key ''value''"
    by (simp_all add: plain_key_def)
  have e: "expect_fields unsigned_schema = []"
    by (simp add: expect_fields_def unsigned_schema_def)
  have m: "''other'' \<notin> set (keys ?data)"
    by (simp add: keys_def)
  have w1: "\<forall>k \<in> set (keys ([] :: jval odict)). decorator_key k"
    by (simp add: keys_def)
  have w3: "\<forall>f \<in> set (signed_names (message_decorators orphan_ping)). plain_key f"
    using p by (simp add: S)
  note t = dump_missing_plain_value [where dump_fields = sample_dump_fields
      and to_dict = ds_to_dict and serialize = sig_serialize and sch = unsigned_schema,
      OF fields deco w1 w3]
  have r: "snd (dump ds_to_dict sig_serialize sample_dump_fields unsigned_schema orphan_ping)
             = Inl (KeyError ''other'')"
    using t [THEN conjunct1] m by (simp add: S e)
  have fields2: "sample_dump_fields signed_ping = Inr ?data"
    by (simp add: sample_defs msg_defs get_type_def get_id_def)
  have deco2: "decorators_dict (fst (check_dump_decorators ds_to_dict sig_serialize signed_schema
                          signed_ping)) = Some []"
    by (simp add: sample_defs msg_defs dump_defs codec_defs)
  have S2: "signed_names (message_decorators signed_ping) = [''value'']"
    by (simp add: sample_defs msg_defs signed_names_def)
  have w32: "\<forall>f \<in> set (signed_names (message_decorators signed_ping)). plain_key f"
    using p by (simp add: S2)
  have ok: "snd (dump ds_to_dict sig_serialize sample_dump_fields signed_schema signed_ping)
       = Inr [(''@type'', JStr ''test/1.0/ping''), (''@id'', JStr ''msg-1''),
              (''value~sig'', sig_serialize good_sig)]"
    by (simp add: sample_defs msg_defs dump_defs codec_defs keys_def)
  note t2 = dump_missing_plain_value [where dump_fields = sample_dump_fields
      and to_dict = ds_to_dict and serialize = sig_serialize and sch = signed_schema,
      OF fields2 deco2 w1 w32]
  have v: "''value'' \<in> set (keys ?data)"
    using t2 [THEN conjunct2, rule_format, OF ok] by (simp add: S2)
  show ?thesis
    by (intro conjI fields deco S p e m r fields2 deco2 S2 ok v)
qed

text \<open>
  A message that holds a signature for a field it has no value for, dumped under a
  policy that requires a signature it does not hold: the dump raises the declared
  \<open>BaseModelError\<close> of the policy check, not a \<open>KeyError\<close>.
\<close>

theorem dump_policy_error_first_counterexample:
  "signed_names (message_decorators orphan_ping) = [''other'']
   \<and> sample_dump_fields orphan_ping
       = Inr [(''@type'', JStr ''test/1.0/ping''), (''@id'', JStr ''msg-1''),
              (''value'', JStr ''hello'')]
   \<and> ''other'' \<notin> set (keys [(''@type'', JStr ''test/1.0/ping''), (''@id'', JStr ''msg-1''),
                               (''value'', JStr ''hello'')])
   \<and> snd (dump ds_to_dict sig_serialize sample_dump_fields signed_schema orphan_ping)
       = Inl (BaseModelError ''Missing signature for field: value'')"
  by (simp add: sample_defs msg_defs dump_defs codec_defs keys_def signed_names_def)



section \<open>Loading what was dumped\<close>

lemma update_fresh: "k \<notin> set (keys d) \<Longrightarrow> AList.update k v d = d @ [(k, v)]"
  by (induction d) (auto simp: keys_def)

lemma dict_update_append:
  "distinct (keys e) \<Longrightarrow> set (keys d) \<inter> set (keys e) = {} \<Longrightarrow> dict_update d e = d @ e"
proof (induction e arbitrary: d)
  case Nil
  then show ?case by simp
next
  case (Cons item e)
  obtain k v where item: "item = (k, v)"
    by (cases item)
  from Cons.prems item have k: "k \<notin> set (keys d)" "k \<notin> set (keys e)" and d: "distinct (keys e)"
    and disj: "set (keys d) \<inter> set (keys e) = {}"
    by (auto simp: keys_Cons)
  have "set (keys (d @ [(k, v)])) \<inter> set (keys e) = {}"
    using disj k by (auto simp: keys_def)
  from Cons.IH [OF d this] k show ?case
    by (simp add: item update_fresh)
qed

lemma split_marker_plain: "plain_key k \<Longrightarrow> split_marker k = None"
  by (induction k) (auto simp: plain_key_def)

lemma ds_extract_loop_plain:
  "\<forall>k \<in> set (keys xs). plain_key k \<Longrightarrow> distinct (keys xs) \<Longrightarrow>
   set (keys xs) \<inter> set (keys remain) = {} \<Longrightarrow>
   ds_extract_loop (xs @ ys) remain ds = ds_extract_loop ys (remain @ xs) ds"
proof (induction xs arbitrary: remain)
  case Nil
  then show ?case by simp
next
  case (Cons item xs)
  obtain k v where item: "item = (k, v)"
    by (cases item)
  from Cons.prems item have p: "plain_key k" "\<forall>k \<in> set (keys xs). plain_key k"
    and d: "distinct (keys xs)" and k: "k \<notin> set (keys xs)" "k \<notin> set (keys remain)"
    and disj: "set (keys xs) \<inter> set (keys remain) = {}"
    by (auto simp: keys_Cons)
  have "set (keys xs) \<inter> set (keys (remain @ [(k, v)])) = {}"
    using disj k by (auto simp: keys_def)
  from Cons.IH [OF p(2) d this] p(1) k show ?case
    by (simp add: item split_marker_plain update_fresh)
qed

lemma unsigned_signed_names: "unsigned ds \<longleftrightarrow> signed_names ds = []"
  by (auto simp: unsigned_def signed_names_def filter_empty_conv)

lemma unsigned_update:
  "unsigned ds \<Longrightarrow> fd_sig fd = None \<Longrightarrow>
   unsigned (ds\<lparr>ds_fields := AList.update name fd (ds_fields ds)\<rparr>)"
proof -
  have "set (AList.update name fd fs) \<subseteq> insert (name, fd) (set fs)" for fs :: "field_decorators odict"
    by (induction fs) auto
  then show "unsigned ds \<Longrightarrow> fd_sig fd = None \<Longrightarrow>
      unsigned (ds\<lparr>ds_fields := AList.update name fd (ds_fields ds)\<rparr>)"
    unfolding unsigned_def by fastforce
qed

lemma field_unsigned:
  assumes "unsigned ds" and "field name ds = (fd, ds')"
  shows "unsigned ds' \<and> fd_sig fd = None"
proof (cases "map_of (ds_fields ds) name")
  case None
  with assms show ?thesis
    by (auto simp: field_def unsigned_def empty_field_def)
next
  case (Some fd0)
  then have "(name, fd0) \<in> set (ds_fields ds)"
    by (rule map_of_SomeD)
  with assms Some show ?thesis
    by (auto simp: field_def unsigned_def)
qed

lemma store_decorator_item:
  assumes "decorator_item (k, v)" and "split_marker k = Some (fname, kind)" and "unsigned ds"
  shows "\<exists>ds'. store_decorator fname kind v ds = Inr ds' \<and> unsigned ds'"
proof (cases "fname = []")
  case True
  with assms show ?thesis
    by (auto simp: decorator_item_def store_decorator_def unsigned_def split: option.splits)
next
  case False
  obtain fd ds1 where f: "field fname ds = (fd, ds1)"
    by (cases "field fname ds")
  from field_unsigned [OF assms(3) f] have u: "unsigned ds1" "fd_sig fd = None"
    by simp_all
  from assms(1,2) False have kind: "kind \<noteq> []" "kind \<noteq> ''sig''"
    by (simp_all add: decorator_item_def)
  have "unsigned (ds1\<lparr>ds_fields :=
                        AList.update fname (fd\<lparr>fd_rest := AList.update kind v (fd_rest fd)\<rparr>)
                          (ds_fields ds1)\<rparr>)"
    using u by (intro unsigned_update) simp_all
  with False kind f show ?thesis
    by (simp add: store_decorator_def)
qed

lemma ds_extract_loop_decorators:
  "\<forall>item \<in> set xs. decorator_item item \<Longrightarrow> unsigned ds \<Longrightarrow>
   \<exists>ds'. unsigned ds' \<and> ds_extract_loop (xs @ ys) remain ds = ds_extract_loop ys remain ds'"
proof (induction xs arbitrary: ds)
  case Nil
  then show ?case by auto
next
  case (Cons item xs)
  obtain k v where item: "item = (k, v)"
    by (cases item)
  from Cons.prems(1) item have di: "decorator_item (k, v)" and rest: "\<forall>i \<in> set xs. decorator_item i"
    by simp_all
  from di obtain fname kind where s: "split_marker k = Some (fname, kind)"
    by (auto simp: decorator_item_def split: option.splits)
  from store_decorator_item [OF di s Cons.prems(2)] obtain ds1 where
    st: "store_decorator fname kind v ds = Inr ds1" and u: "unsigned ds1"
    by blast
  from Cons.IH [OF rest u] obtain ds' where
    "unsigned ds'" "ds_extract_loop (xs @ ys) remain ds1 = ds_extract_loop ys remain ds'"
    by blast
  with s st show ?case
    by (auto simp: item)
qed

lemma check_field_signatures_unsigned:
  "\<forall>entry \<in> set fs. fd_sig (snd entry) = None \<Longrightarrow>
   check_field_signatures decode expect fs processed found = Inr (processed, found)"
  by (induction fs) auto

lemma check_signed_fields_unsigned:
  "unsigned ds \<Longrightarrow> check_signed_fields decode [] (ds_fields ds) processed = Inr processed"
  by (simp add: check_signed_fields_def check_field_signatures_unsigned unsigned_def)



lemma decorator_item_key: "decorator_item (k, v) \<Longrightarrow> \<not> plain_key k"
  using split_marker_plain [of k] by (auto simp: decorator_item_def)

text \<open>
  C9 (amended). For a message of a kind with an empty signed-fields policy that holds no
  stored field signature and has a non-empty id: the dump succeeds, and loading its output
  with a fresh schema of the kind gives a message with the same id, the same type and
  the same attributes. The field schema loads the id and the attributes back from the
  plain items it dumped; its keys are plain and distinct; the wire map of the snapshot
  has distinct keys and its items are decorators that the extraction stores.
\<close>

theorem load_dump_round_trip:
  assumes policy: "expect_fields sch = []" and lpolicy: "expect_fields lsch = []"
    and lfresh: "decorators lsch = DecoratorSet"
    and nosig: "signed_names (message_decorators e) = []"
    and fields: "dump_fields e = Inr data"
    and deco: "decorators_dict (fst (check_dump_decorators to_dict serialize sch e)) = Some deco"
    and d2: "distinct (keys data)" and d3: "distinct (keys deco)"
    and w1: "\<forall>item \<in> set deco. decorator_item item"
    and w2: "\<forall>k \<in> set (keys data). plain_key k"
    and codec: "load_fields (plain_items data) = Inr (Some (message_id e), attrs e)"
    and id: "message_id e \<noteq> []"
    and kind: "base_init (meta e) = None" and typed: "truthy (message_type (meta e))"
  shows "\<exists>out e'. snd (dump to_dict serialize dump_fields sch e) = Inr out
           \<and> snd (load ds_extract_decorators decode load_fields base_init ds_bool fresh (meta e)
                    lsch out) = Inr e'
           \<and> get_id e' = get_id e \<and> get_type e' = get_type e \<and> attrs e' = attrs e"
proof -
  define ks where "ks = [''@type'', ''@id'']"
  define result where "result = fst (pop_keys ks [] data)"
  define rest where "rest = snd (pop_keys ks [] data)"
  define sigs where "sigs = signatures (fst (check_dump_decorators to_dict serialize sch e))"
  have "distinct ks"
    by (simp add: ks_def)
  then have pk: "keys result = filter (\<lambda>k. k \<in> set (keys data)) ks"
    "keys rest = filter (\<lambda>k. k \<notin> set ks) (keys data)"
    unfolding result_def rest_def using pop_keys_keys [of ks "[]" data]
    by (simp_all add: keys_Nil)
  have plain_result: "\<forall>k \<in> set (keys result). plain_key k"
    and plain_rest: "\<forall>k \<in> set (keys rest). plain_key k"
    using w2 by (simp_all add: pk)
  have dist_result: "distinct (keys result)" and dist_rest: "distinct (keys rest)"
    using d2 \<open>distinct ks\<close> by (simp_all add: pk)
  have disj: "set (keys result) \<inter> set (keys rest) = {}"
    by (auto simp: pk)
  have deco_keys: "\<forall>k \<in> set (keys deco). \<not> plain_key k"
    using w1 decorator_item_key by (fastforce simp: keys_def)
  \<comment> \<open>the dump\<close>
  have "set (keys sigs) = {}"
    unfolding sigs_def using signatures_keys_set [of to_dict serialize sch e] nosig by simp
  then have sigs: "sigs = []"
    by (simp add: keys_def)
  have pre: "snd (check_dump_decorators to_dict serialize sch e) = Inr e"
    by (simp add: check_dump_decorators_state policy)
  have c1: "dict_update result deco = result @ deco"
    using plain_result deco_keys by (intro dict_update_append d3) auto
  have keys_append: "keys (xs @ ys) = keys xs @ keys ys" for xs ys :: "jval odict"
    by (simp add: keys_def)
  have "set (keys (result @ deco)) \<inter> set (keys rest) = {}"
    using plain_rest deco_keys disj by (auto simp: keys_append)
  from dict_update_append [OF dist_rest this]
  have c2: "dict_update (result @ deco) rest = result @ deco @ rest"
    by simp
  have out: "snd (dump to_dict serialize dump_fields sch e) = Inr (result @ deco @ rest)"
    using dump_success [where dump_fields = dump_fields, OF fields deco pre]
    unfolding sigs_def [symmetric] sigs ks_def [symmetric] result_def [symmetric]
      rest_def [symmetric] c1 c2
    by simp
  \<comment> \<open>the load\<close>
  have u0: "unsigned DecoratorSet"
    by (simp add: unsigned_def DecoratorSet_def)
  have e1: "ds_extract_loop (result @ deco @ rest) [] DecoratorSet
              = ds_extract_loop (deco @ rest) result DecoratorSet"
    using ds_extract_loop_plain [OF plain_result dist_result, of "[]" "deco @ rest" DecoratorSet]
    by (simp add: keys_Nil)
  from ds_extract_loop_decorators [OF w1 u0, of rest result] obtain ds' where
    u: "unsigned ds'"
    and e2: "ds_extract_loop (deco @ rest) result DecoratorSet = ds_extract_loop rest result ds'"
    by blast
  have e3: "ds_extract_loop rest result ds' = Inr (result @ rest, ds')"
    using ds_extract_loop_plain [OF plain_rest dist_rest, of result "[]" ds'] disj
    by (simp add: Int_commute)
  have ext: "ds_extract_decorators (decorators lsch) (result @ deco @ rest)
               = Inr (result @ rest, ds')"
    by (simp add: ds_extract_decorators_def lfresh e1 e2 e3)
  have hook: "snd (extract_decorators ds_extract_decorators decode lsch (result @ deco @ rest))
                = Inr (result @ rest)"
    by (simp add: extract_decorators_snd [where ds_extract = ds_extract_decorators, OF ext]
          lpolicy check_signed_fields_unsigned [OF u])
  have items: "plain_items data = result @ rest"
    by (simp add: plain_items_def result_def rest_def ks_def)
  define e' where
    "e' = \<lparr>meta = meta e, message_id = message_id e, message_new_id = False,
           message_decorators = ds', attrs = attrs e\<rparr>"
  have built: "init base_init ds_bool fresh (meta e) (Some (message_id e)) None (attrs e)
                 = Inr (e'\<lparr>message_decorators := DecoratorSet\<rparr>)"
    using id kind typed by (simp add: init_def e'_def)
  obtain lsch' where hk: "extract_decorators ds_extract_decorators decode lsch (result @ deco @ rest)
                            = (lsch', Inr (result @ rest))" and ld: "decorators lsch' = ds'"
    using hook ext by (cases "extract_decorators ds_extract_decorators decode lsch (result @ deco @ rest)")
      (auto simp: extract_decorators_def)
  have loaded: "snd (load ds_extract_decorators decode load_fields base_init ds_bool fresh (meta e)
                       lsch (result @ deco @ rest)) = Inr e'"
    using codec built ld
    by (simp add: load_def hk items populate_decorators_def set_decorators_def e'_def)
  have same: "get_id e' = get_id e \<and> get_type e' = get_type e \<and> attrs e' = attrs e"
    by (simp add: e'_def get_id_def get_type_def)
  from out loaded same show ?thesis
    by blast
qed



theorem load_dump_round_trip_witness:
  "expect_fields unsigned_schema = []
   \<and> decorators unsigned_schema = DecoratorSet
   \<and> signed_names (message_decorators threaded_ping) = []
   \<and> sample_dump_fields threaded_ping = Inr wire_plain
   \<and> decorators_dict
        (fst (check_dump_decorators ds_to_dict sig_serialize unsigned_schema threaded_ping))
       = Some [(''~thread'', thread_serialize \<lparr>thid = Some ''T'', pthid = Some ''P''\<rparr>)]
   \<and> distinct (keys wire_plain)
   \<and> decorator_item (''~thread'', thread_serialize \<lparr>thid = Some ''T'', pthid = Some ''P''\<rparr>)
   \<and> plain_key ''@type'' \<and> plain_key ''@id'' \<and> plain_key ''value''
   \<and> sample_load_fields (plain_items wire_plain)
       = Inr (Some (message_id threaded_ping), attrs threaded_ping)
   \<and> message_id threaded_ping = ''msg-1''
   \<and> sample_base_init (meta threaded_ping) = None
   \<and> truthy (message_type (meta threaded_ping))
   \<and> (\<exists>out e'.
         snd (dump ds_to_dict sig_serialize sample_dump_fields unsigned_schema threaded_ping)
           = Inr out
         \<and> snd (load ds_extract_decorators sample_decode sample_load_fields sample_base_init
                  sample_ds_bool ''uuid-1'' (meta threaded_ping) unsigned_schema out) = Inr e'
         \<and> get_id e' = get_id threaded_ping \<and> get_type e' = get_type threaded_ping
         \<and> attrs e' = attrs threaded_ping)"
proof -
  let ?deco = "[(''~thread'', thread_serialize \<lparr>thid = Some ''T'', pthid = Some ''P''\<rparr>)]"
  have policy: "expect_fields unsigned_schema = []"
    by (simp add: expect_fields_def unsigned_schema_def)
  have lfresh: "decorators unsigned_schema = DecoratorSet"
    by (simp add: unsigned_schema_def)
  have nosig: "signed_names (message_decorators threaded_ping) = []"
    by (simp add: sample_defs msg_defs signed_names_def)
  have fields: "sample_dump_fields threaded_ping = Inr wire_plain"
    by (simp add: sample_defs msg_defs get_type_def get_id_def)
  have deco: "decorators_dict
        (fst (check_dump_decorators ds_to_dict sig_serialize unsigned_schema threaded_ping))
       = Some ?deco"
    by (simp add: sample_defs msg_defs dump_defs codec_defs)
  have d2: "distinct (keys wire_plain)"
    by (simp add: wire_plain_def keys_def)
  have d3: "distinct (keys ?deco)"
    by (simp add: keys_def)
  have di: "decorator_item (''~thread'', thread_serialize \<lparr>thid = Some ''T'', pthid = Some ''P''\<rparr>)"
    by (simp add: decorator_item_def thread_serialize_def)
  then have w1: "\<forall>item \<in> set ?deco. decorator_item item"
    by simp
  have p: "plain_key ''@type''" "plain_key ''@id''" "plain_key ''value''"
    by (simp_all add: plain_key_def)
  then have w2: "\<forall>k \<in> set (keys wire_plain). plain_key k"
    by (simp add: wire_plain_def keys_def)
  have codec: "sample_load_fields (plain_items wire_plain)
                 = Inr (Some (message_id threaded_ping), attrs threaded_ping)"
    by (simp add: sample_defs msg_defs plain_items_def)
  have id: "message_id threaded_ping = ''msg-1''"
    by (simp add: sample_defs msg_defs)
  then have id': "message_id threaded_ping \<noteq> []"
    by simp
  have kind: "sample_base_init (meta threaded_ping) = None"
    and typed: "truthy (message_type (meta threaded_ping))"
    by (simp_all add: sample_defs msg_defs)
  note t = load_dump_round_trip [where dump_fields = sample_dump_fields
      and load_fields = sample_load_fields and to_dict = ds_to_dict and serialize = sig_serialize
      and base_init = sample_base_init and decode = sample_decode and ds_bool = sample_ds_bool
      and fresh = "''uuid-1''",
      OF policy policy lfresh nosig fields deco d2 d3 w1 w2 codec id' kind typed]
  show ?thesis
    by (intro conjI policy lfresh nosig fields deco d2 di p codec id kind typed t)
qed

text \<open>
  Two messages of a kind with an empty policy. One holds a stored signature: its dump
  succeeds and carries the \<open>~sig\<close> key, and loading that output is refused. The other
  had its id set to the empty string: loading its dump constructs a message with a
  generated id.
\<close>

theorem load_dump_round_trip_counterexample:
  "expect_fields unsigned_schema = []
   \<and> snd (dump ds_to_dict sig_serialize sample_dump_fields unsigned_schema signed_ping)
       = Inr wire_signed
   \<and> snd (load ds_extract_decorators sample_decode sample_load_fields sample_base_init
            sample_ds_bool ''uuid-1'' (meta signed_ping) unsigned_schema wire_signed)
       = Inl (ValidationError ''Encountered unexpected field signature: value'')
   \<and> get_id (set_id [] ping) = []
   \<and> snd (dump ds_to_dict sig_serialize sample_dump_fields unsigned_schema (set_id [] ping))
       = Inr [(''@type'', JStr ''test/1.0/ping''), (''@id'', JStr []),
              (''value'', JStr ''hello'')]
   \<and> snd (load ds_extract_decorators sample_decode sample_load_fields sample_base_init
            sample_ds_bool ''uuid-1'' (meta (set_id [] ping)) unsigned_schema
            [(''@type'', JStr ''test/1.0/ping''), (''@id'', JStr []),
             (''value'', JStr ''hello'')])
       = Inr \<lparr>meta = Ping_Meta, message_id = ''uuid-1'', message_new_id = True,
              message_decorators = DecoratorSet, attrs = [(''value'', JStr ''hello'')]\<rparr>"
proof -
  have a: "expect_fields unsigned_schema = []"
    by (simp add: expect_fields_def unsigned_schema_def)
  have b: "snd (dump ds_to_dict sig_serialize sample_dump_fields unsigned_schema signed_ping)
       = Inr wire_signed"
    by (simp add: sample_defs msg_defs dump_defs codec_defs keys_def)
  have x: "ds_extract_decorators (decorators unsigned_schema) wire_signed
     = Inr ([(''@type'', JStr ''test/1.0/ping''), (''@id'', JStr ''msg-1'')],
            message_decorators signed_ping)"
    by (simp add: sample_defs msg_defs codec_defs)
  have c: "snd (extract_decorators ds_extract_decorators sample_decode unsigned_schema wire_signed)
       = Inl (ValidationError ''Encountered unexpected field signature: value'')"
    unfolding extract_decorators_def x
    by (simp add: sample_defs msg_defs load_defs)
  have d: "get_id (set_id [] ping) = []"
    by (simp add: get_id_def set_id_def)
  have e: "snd (dump ds_to_dict sig_serialize sample_dump_fields unsigned_schema (set_id [] ping))
       = Inr [(''@type'', JStr ''test/1.0/ping''), (''@id'', JStr []),
              (''value'', JStr ''hello'')]"
    by (simp add: sample_defs msg_defs dump_defs codec_defs keys_def set_id_def Let_def)
  have y: "ds_extract_decorators (decorators unsigned_schema)
             [(''@type'', JStr ''test/1.0/ping''), (''@id'', JStr []), (''value'', JStr ''hello'')]
     = Inr ([(''@type'', JStr ''test/1.0/ping''), (''@id'', JStr []),
             (''value'', JStr ''hello'')], DecoratorSet)"
    by (simp add: sample_defs msg_defs codec_defs)
  have f: "snd (load ds_extract_decorators sample_decode sample_load_fields sample_base_init
            sample_ds_bool ''uuid-1'' (meta (set_id [] ping)) unsigned_schema
            [(''@type'', JStr ''test/1.0/ping''), (''@id'', JStr []),
             (''value'', JStr ''hello'')])
       = Inr \<lparr>meta = Ping_Meta, message_id = ''uuid-1'', message_new_id = True,
              message_decorators = DecoratorSet, attrs = [(''value'', JStr ''hello'')]\<rparr>"
    unfolding load_def extract_decorators_def y
    by (simp add: sample_defs msg_defs load_defs init_def set_id_def populate_decorators_def
          set_decorators_def)
  from load_extract_error [OF c] a b d e f show ?thesis
    by simp
qed


end
